theory Spec2Isabelle
  imports Main "HOL-Library.Log_Nat" "HOL-Library.Sublist"
begin

section \<open>JavaScript values shared by all modules\<close>

text \<open>
  A thrown JavaScript \<^verbatim>\<open>Error\<close> is its message.  A call that may throw (or an
  \<^verbatim>\<open>async\<close> function, whose promise may reject) returns \<open>exn + 'a\<close>:
  \<open>Inl\<close> is the exception, \<open>Inr\<close> the value.

  Amounts are kept by the program as decimal strings of wei integers; the model
  holds the natural number such a string denotes.  A field that the store declares
  \<^verbatim>\<open>NOT NULL\<close>, or that the program dereferences, is an \<open>option\<close>: \<open>None\<close> is
  JavaScript's \<^verbatim>\<open>undefined\<close>/\<^verbatim>\<open>null\<close>.  A point in time (a \<^verbatim>\<open>Date\<close>, an ISO
  string, \<^verbatim>\<open>CURRENT_TIMESTAMP\<close>) is its number of milliseconds since the epoch.
\<close>

datatype exn = Error string

section \<open>IEEE-754 doubles, as far as the program uses them\<close>

text \<open>
  JavaScript numbers and SQLite \<^verbatim>\<open>REAL\<close>s are binary64 floating-point numbers.  The
  program only forms non-negative ones (amounts, their multiples and their sums), so a
  double is modelled by its mantissa and binary exponent: \<open>(m, e)\<close> is the number
  \<open>m * 2^e\<close>, with \<open>2^52 \<le> m < 2^53\<close>, or \<open>(0, 0)\<close> for zero.  The exponent is
  not bounded: the model is binary64 in the normal range, from \<open>2^-1022\<close> up to
  \<open>2^1024\<close>, which an amount of wei divided by \<open>10^18\<close> can only leave upwards, above
  \<open>10^326\<close> wei.  Infinity and NaN are not modelled.

  \<open>to_double p q\<close> is the double nearest to the fraction \<open>p / q\<close>, ties to even: the
  rounding of every binary64 operation and of a correctly rounded decimal-to-binary
  conversion (\<^verbatim>\<open>parseFloat\<close>, a numeric literal, \<^verbatim>\<open>CAST(text AS REAL)\<close>).
\<close>

type_synonym double = "nat \<times> int"

definition dbl_num :: "double \<Rightarrow> nat" where
  "dbl_num x = (if 0 \<le> snd x then fst x * 2 ^ nat (snd x) else fst x)"

definition dbl_den :: "double \<Rightarrow> nat" where
  "dbl_den x = (if 0 \<le> snd x then 1 else 2 ^ nat (- snd x))"

definition dbl_val :: "double \<Rightarrow> rat" where
  "dbl_val x = of_nat (dbl_num x) / of_nat (dbl_den x)"

definition round_half_even :: "nat \<Rightarrow> nat \<Rightarrow> nat" where
  "round_half_even n d =
     (let q = n div d; r = n mod d
      in if 2 * r < d then q else if d < 2 * r then q + 1
         else if even q then q else q + 1)"

definition to_double :: "nat \<Rightarrow> nat \<Rightarrow> double" where
  "to_double p q =
     (if p = 0 then (0, 0)
      else
        let s = int (floorlog 2 p) - int (floorlog 2 q) - 53;
            n = (if s < 0 then p * 2 ^ nat (- s) else p);
            d = (if s < 0 then q else q * 2 ^ nat s);
            s' = (if 2 ^ 53 \<le> n div d then s + 1 else s);
            d' = (if 2 ^ 53 \<le> n div d then 2 * d else d);
            m = round_half_even n d'
        in if m = 2 ^ 53 then (2 ^ 52, s' + 1) else (m, s'))"

definition dbl_mult :: "double \<Rightarrow> double \<Rightarrow> double" where
  "dbl_mult x y = to_double (dbl_num x * dbl_num y) (dbl_den x * dbl_den y)"

definition dbl_add :: "double \<Rightarrow> double \<Rightarrow> double" where
  "dbl_add x y =
     to_double (dbl_num x * dbl_den y + dbl_num y * dbl_den x) (dbl_den x * dbl_den y)"

definition dbl_less :: "double \<Rightarrow> double \<Rightarrow> bool" where
  "dbl_less x y \<longleftrightarrow> dbl_num x * dbl_den y < dbl_num y * dbl_den x"

subsection \<open>Number.prototype.toString and ethers.parseEther\<close>

text \<open>
  \<^verbatim>\<open>x.toString()\<close> prints the shortest decimal \<open>s * 10^t\<close> that converts back to
  \<open>x\<close>: the least number \<open>k\<close> of significant digits for which a \<open>k\<close>-digit decimal
  does, and among such decimals the one nearest to \<open>x\<close> (ECMA-262, Number::toString).
  \<open>dec_exponent x\<close> is the decimal exponent of the leading digit of \<open>x\<close>;
  \<open>shortest_digits x d k\<close> tries \<open>k\<close>, \<open>k + 1\<close>, and so on up to 17 digits, at each length the
  two \<open>k\<close>-digit decimals around \<open>x\<close>; 17 digits always suffice for a double.
  \<open>number_to_decimal\<close> is the printed decimal \<open>(s, t)\<close>, without trailing zeros.

  \<^verbatim>\<open>ethers.parseEther(x.toString())\<close> accepts plain decimal notation with at most 18
  fractional digits and returns the number of wei.  It throws on exponent notation,
  which \<^verbatim>\<open>toString\<close> uses when \<open>0.s * 10^n\<close> has \<open>n < -5\<close> or \<open>21 < n\<close>, and on a
  19th fractional digit.
\<close>

definition dec_exponent :: "double \<Rightarrow> int" where
  "dec_exponent x =
     (let p = dbl_num x; q = dbl_den x
      in if q \<le> p then int (floorlog 10 (p div q)) - 1
         else
           let l = floorlog 10 (q div p)
           in if q \<le> p * 10 ^ (l - 1) then 1 - int l else - int l)"

definition decimal_to_double :: "nat \<Rightarrow> int \<Rightarrow> double" where
  "decimal_to_double n t =
     (if 0 \<le> t then to_double (n * 10 ^ nat t) 1 else to_double n (10 ^ nat (- t)))"

definition scaled_num :: "double \<Rightarrow> int \<Rightarrow> nat" where
  "scaled_num x t = (if 0 \<le> t then dbl_num x else dbl_num x * 10 ^ nat (- t))"

definition scaled_den :: "double \<Rightarrow> int \<Rightarrow> nat" where
  "scaled_den x t = (if 0 \<le> t then dbl_den x * 10 ^ nat t else dbl_den x)"

function shortest_digits :: "double \<Rightarrow> int \<Rightarrow> int \<Rightarrow> nat \<times> int" where
  "shortest_digits x d k =
     (let t = d - k + 1;
          lo = scaled_num x t div scaled_den x t;
          r = scaled_num x t mod scaled_den x t;
          near_lo = (2 * r < scaled_den x t \<or> 2 * r = scaled_den x t \<and> even lo);
          lo_ok = (0 < lo \<and> decimal_to_double lo t = x);
          hi_ok = (decimal_to_double (lo + 1) t = x)
      in if 17 \<le> k then (if near_lo then (lo, t) else (lo + 1, t))
         else if lo_ok \<and> (near_lo \<or> \<not> hi_ok) then (lo, t)
         else if hi_ok then (lo + 1, t)
         else shortest_digits x d (k + 1))"
  by pat_completeness auto
termination
  by (relation "measure (\<lambda>(x, d, k). nat (17 - k))") auto

function strip_zeros :: "nat \<Rightarrow> int \<Rightarrow> nat \<times> int" where
  "strip_zeros s t =
     (if 0 < s \<and> s mod 10 = 0 then strip_zeros (s div 10) (t + 1) else (s, t))"
  by pat_completeness auto
termination
  by (relation "measure (\<lambda>(s, t). s)") auto

declare shortest_digits.simps [simp del] strip_zeros.simps [simp del]

definition number_to_decimal :: "double \<Rightarrow> nat \<times> int" where
  "number_to_decimal x =
     (let st = shortest_digits x (dec_exponent x) 1 in strip_zeros (fst st) (snd st))"

definition parseEther_number :: "double \<Rightarrow> exn + nat" where
  "parseEther_number x =
     (if fst x = 0 then Inr 0
      else
        let s = fst (number_to_decimal x); t = snd (number_to_decimal x);
            n = t + int (floorlog 10 s)
        in if n < - 5 \<or> 21 < n then Inl (Error ''invalid FixedNumber string value'')
           else if t < - 18 then Inl (Error ''too many decimals for format'')
           else Inr (s * 10 ^ nat (18 + t)))"

section \<open>src/src/services/eigenLayerService.js: the restaking/validator adapter\<close>

subsection \<open>Wire format and normalised records\<close>

record deposit =
  d_staker :: "string option"
  d_strategy :: "string option"
  d_amount :: "nat option"
  d_blockNumber :: "int option"
  d_blockTimestamp :: "int option"
  d_transactionHash :: "string option"

record operator =
  o_id :: "string option"
  o_operator :: "string option"
  o_totalShares :: "nat option"
  o_metadataURI :: "string option"

record restaker =
  userAddress :: "string option"
  amountRestaked :: "nat option"
  targetAVSValidatorAddress :: "string option"
  strategy :: "string option"
  blockNumber :: "int option"
  transactionHash :: "string option"
  timestamp :: int

record validator =
  operatorAddress :: "string option"
  operatorId :: "string option"
  totalDelegatedStake :: "nat option"
  validatorStatus :: "string option"
  metadataURI :: "string option"

text \<open>
  The JSON envelope of the graph-query endpoint, \<^verbatim>\<open>response.data\<close>.  \<open>errors\<close> is
  \<open>None\<close> when the entry is absent or null and \<open>Some es\<close> when it is an array (each
  element its JSON text).  \<open>payload\<close> is \<^verbatim>\<open>response.data.data.deposits\<close> (or
  \<^verbatim>\<open>.operators\<close>): \<open>None\<close> when \<^verbatim>\<open>data\<close> or the list is missing, where the property
  access or \<^verbatim>\<open>.map\<close> throws a TypeError.  \<open>Transport_failure\<close> is a rejected
  \<^verbatim>\<open>axios.post\<close> (timeout, unreachable endpoint, non-2xx status).
\<close>

record 'a envelope =
  errors :: "string list option"
  payload :: "'a list option"

datatype 'a http = Transport_failure string | Response "'a envelope"

subsection \<open>processRestakingData, processValidatorData\<close>

text \<open>
  \<^verbatim>\<open>new Date(parseInt(deposit.blockTimestamp) * 1000).toISOString()\<close>:
  \<open>d_blockTimestamp\<close> is what \<^verbatim>\<open>parseInt\<close> returned (\<open>None\<close> for NaN);
  \<^verbatim>\<open>toISOString\<close> throws a RangeError on an invalid date, which is NaN or a time
  value beyond 8.64e15 ms.
\<close>

definition toISOString :: "int option \<Rightarrow> exn + int" where
  "toISOString t =
     (case t of
        None \<Rightarrow> Inl (Error ''Invalid time value'')
      | Some ms \<Rightarrow>
          if \<bar>ms\<bar> \<le> 8640000000000000 then Inr ms
          else Inl (Error ''Invalid time value''))"

definition processDeposit :: "deposit \<Rightarrow> exn + restaker" where
  "processDeposit d =
     (case toISOString (map_option (\<lambda>s. s * 1000) (d_blockTimestamp d)) of
        Inl e \<Rightarrow> Inl e
      | Inr ts \<Rightarrow> Inr
          \<lparr> userAddress = d_staker d,
            amountRestaked = d_amount d,
            targetAVSValidatorAddress = d_strategy d,
            strategy = d_strategy d,
            blockNumber = d_blockNumber d,
            transactionHash = d_transactionHash d,
            timestamp = ts \<rparr>)"

fun processRestakingData :: "deposit list \<Rightarrow> exn + restaker list" where
  "processRestakingData [] = Inr []"
| "processRestakingData (d # ds) =
     (case processDeposit d of
        Inl e \<Rightarrow> Inl e
      | Inr r \<Rightarrow>
          (case processRestakingData ds of
             Inl e \<Rightarrow> Inl e
           | Inr rs \<Rightarrow> Inr (r # rs)))"

definition processOperator :: "operator \<Rightarrow> validator" where
  "processOperator x =
     \<lparr> operatorAddress = o_operator x,
       operatorId = o_id x,
       totalDelegatedStake =
         (case o_totalShares x of None \<Rightarrow> Some 0 | Some n \<Rightarrow> Some n),
       validatorStatus = Some ''active'',
       metadataURI = o_metadataURI x \<rparr>"

definition processValidatorData :: "operator list \<Rightarrow> validator list" where
  "processValidatorData operators = map processOperator operators"

subsection \<open>getMockRestakingData, getMockValidatorData\<close>

definition getMockRestakingData :: "int \<Rightarrow> restaker list" where
  "getMockRestakingData now =
     [ \<lparr> userAddress = Some ''0x742f6b5d9d4bb4e9d8a0e6a8b4e5d2a1f8c3e9d7'',
         amountRestaked = Some 32500000000000000000,
         targetAVSValidatorAddress = Some ''0x858646372CC42E1A627fcE94aa7A7033e7CF075A'',
         strategy = Some ''0x93c4b944D05dfe6df7645A86cd2206016c51564D'',
         blockNumber = Some 18500000,
         transactionHash = Some ''0x123...abc'',
         timestamp = now \<rparr>,
       \<lparr> userAddress = Some ''0x9a8f7e6d5c4b3a2f1e0d9c8b7a6f5e4d3c2b1a09'',
         amountRestaked = Some 100000000000000000000,
         targetAVSValidatorAddress = Some ''0x858646372CC42E1A627fcE94aa7A7033e7CF075A'',
         strategy = Some ''0x93c4b944D05dfe6df7645A86cd2206016c51564D'',
         blockNumber = Some 18500100,
         transactionHash = Some ''0x456...def'',
         timestamp = now - 3600000 \<rparr> ]"

definition getMockValidatorData :: "validator list" where
  "getMockValidatorData =
     [ \<lparr> operatorAddress = Some ''0x858646372CC42E1A627fcE94aa7A7033e7CF075A'',
         operatorId = Some ''operator_1'',
         totalDelegatedStake = Some 1500750000000000000000,
         validatorStatus = Some ''active'',
         metadataURI = Some ''https://example.com/operator1-metadata.json'' \<rparr>,
       \<lparr> operatorAddress = Some ''0x39053D51B77DC0d36036Fc1fCc8Cb819df8Ef37A'',
         operatorId = Some ''operator_2'',
         totalDelegatedStake = Some 850250000000000000000,
         validatorStatus = Some ''active'',
         metadataURI = Some ''https://example.com/operator2-metadata.json'' \<rparr> ]"

subsection \<open>fetchRestakingData, fetchValidatorData\<close>

text \<open>
  \<open>graphql_errors_message\<close> is the message of the Error thrown at lines 55-57 and
  125-127.  The \<open>_request\<close> functions are the bodies of the two \<^verbatim>\<open>try\<close> blocks; the
  adapter functions proper add the \<^verbatim>\<open>catch\<close>, which returns the mock data.  The
  test \<^verbatim>\<open>if (response.data.errors)\<close> is JavaScript truthiness: every array, the
  empty one too, is truthy.
\<close>

fun intercalate :: "string \<Rightarrow> string list \<Rightarrow> string" where
  "intercalate sep [] = []"
| "intercalate sep [x] = x"
| "intercalate sep (x # y # ys) = x @ sep @ intercalate sep (y # ys)"

definition graphql_errors_message :: "string list \<Rightarrow> string" where
  "graphql_errors_message es = ''GraphQL errors: ['' @ intercalate '','' es @ '']''"

definition fetchRestakingData_request :: "deposit http \<Rightarrow> exn + restaker list" where
  "fetchRestakingData_request resp =
     (case resp of
        Transport_failure m \<Rightarrow> Inl (Error m)
      | Response env \<Rightarrow>
          (case errors env of
             Some es \<Rightarrow> Inl (Error (graphql_errors_message es))
           | None \<Rightarrow>
               (case payload env of
                  None \<Rightarrow> Inl (Error ''Cannot read properties of undefined'')
                | Some deposits \<Rightarrow> processRestakingData deposits)))"

definition eigen_fetchRestakingData :: "int \<Rightarrow> deposit http \<Rightarrow> exn + restaker list" where
  "eigen_fetchRestakingData now resp =
     (case fetchRestakingData_request resp of
        Inl e \<Rightarrow> Inr (getMockRestakingData now)
      | Inr rs \<Rightarrow> Inr rs)"

definition fetchValidatorData_request :: "operator http \<Rightarrow> exn + validator list" where
  "fetchValidatorData_request resp =
     (case resp of
        Transport_failure m \<Rightarrow> Inl (Error m)
      | Response env \<Rightarrow>
          (case errors env of
             Some es \<Rightarrow> Inl (Error (graphql_errors_message es))
           | None \<Rightarrow>
               (case payload env of
                  None \<Rightarrow> Inl (Error ''Cannot read properties of undefined'')
                | Some operators \<Rightarrow> Inr (processValidatorData operators))))"

definition eigen_fetchValidatorData :: "operator http \<Rightarrow> exn + validator list" where
  "eigen_fetchValidatorData resp =
     (case fetchValidatorData_request resp of
        Inl e \<Rightarrow> Inr getMockValidatorData
      | Inr vs \<Rightarrow> Inr vs)"

text \<open>
  \<open>forget_timestamp\<close> blanks the \<^verbatim>\<open>timestamp\<close> field of a restaker record.
\<close>

definition forget_timestamp :: "restaker \<Rightarrow> restaker" where
  "forget_timestamp r = r\<lparr> timestamp := 0 \<rparr>"

text \<open>
  \<open>errors_nonempty\<close> is the condition the specification names: the envelope carries
  an errors array with at least one element.  \<open>valid_deposit\<close> says that the
  deposit's block timestamp gives a valid \<^verbatim>\<open>Date\<close>.
\<close>

definition errors_nonempty :: "'a envelope \<Rightarrow> bool" where
  "errors_nonempty env = (case errors env of None \<Rightarrow> False | Some es \<Rightarrow> es \<noteq> [])"

definition valid_deposit :: "deposit \<Rightarrow> bool" where
  "valid_deposit d = (case d_blockTimestamp d of
     None \<Rightarrow> False | Some s \<Rightarrow> \<bar>s * 1000\<bar> \<le> 8640000000000000)"

definition normalise_deposit :: "deposit \<Rightarrow> restaker" where
  "normalise_deposit d =
     \<lparr> userAddress = d_staker d,
       amountRestaked = d_amount d,
       targetAVSValidatorAddress = d_strategy d,
       strategy = d_strategy d,
       blockNumber = d_blockNumber d,
       transactionHash = d_transactionHash d,
       timestamp = the (d_blockTimestamp d) * 1000 \<rparr>"

subsection \<open>fetchSlashingEvents, simulateRewards, fetchRewardsData\<close>

record reward =
  rw_userAddress :: "string option"
  validatorAddress :: "string option"
  rewardAmount :: "nat option"
  rewardType :: "string option"
  rw_blockNumber :: "int option"
  rw_transactionHash :: "string option"
  rw_timestamp :: int

record slash_event =
  se_operatorAddress :: "string option"
  slashedAmount :: "nat option"
  reason :: "string option"
  se_blockNumber :: "int option"
  se_transactionHash :: "string option"

definition fetchSlashingEvents :: "exn + slash_event list" where
  "fetchSlashingEvents = Inr []"

text \<open>
  \<open>parseFloat_formatEther wei\<close> is \<^verbatim>\<open>parseFloat(ethers.formatEther(amount))\<close>:
  \<^verbatim>\<open>formatEther\<close> prints \<open>wei / 10^18\<close> exactly and \<^verbatim>\<open>parseFloat\<close> rounds it to a
  double.  \<open>dailyRewardRate\<close> and \<open>materiality\<close> are the literals \<^verbatim>\<open>0.0001\<close> and
  \<^verbatim>\<open>0.001\<close>.

  Each call of \<^verbatim>\<open>Math.random()\<close> reads a source of randomness that is no argument
  of \<^verbatim>\<open>simulateRewards\<close>.  The model takes it as the function \<open>rnd\<close>: \<open>rnd k\<close> is
  what \<^verbatim>\<open>Math.random().toString(16).substr(2, 64)\<close> gives at the \<open>k\<close>-th call within
  one invocation.  \<open>now\<close> is \<^verbatim>\<open>Date.now()\<close>, a time that \<^verbatim>\<open>toISOString\<close> accepts, 30
  days back included.  The accumulator of the loops is the
  \<^verbatim>\<open>rewards\<close> array and the number of random draws made so far.
\<close>

definition oneDay :: int where
  "oneDay = 24 * 60 * 60 * 1000"

definition dailyRewardRate :: double where
  "dailyRewardRate = to_double 1 10000"

definition materiality :: double where
  "materiality = to_double 1 1000"

definition parseFloat_formatEther :: "nat \<Rightarrow> double" where
  "parseFloat_formatEther wei = to_double wei (10 ^ 18)"

definition derived_reward :: "restaker \<Rightarrow> nat \<Rightarrow> int \<Rightarrow> string \<Rightarrow> nat \<Rightarrow> reward" where
  "derived_reward r wei now hex i =
     \<lparr> rw_userAddress = userAddress r,
       validatorAddress = targetAVSValidatorAddress r,
       rewardAmount = Some wei,
       rewardType = Some ''restaking'',
       rw_blockNumber = map_option (\<lambda>b. b + int i) (blockNumber r),
       rw_transactionHash = Some (''0x'' @ hex),
       rw_timestamp = now - int i * oneDay \<rparr>"

function simulate_periods ::
  "int \<Rightarrow> (nat \<Rightarrow> string) \<Rightarrow> restaker \<Rightarrow> double \<Rightarrow> nat \<Rightarrow> reward list \<times> nat
     \<Rightarrow> exn + reward list \<times> nat" where
  "simulate_periods now rnd r stakedAmount i acc =
     (if i < 30 then
        if dbl_less materiality (dbl_mult stakedAmount dailyRewardRate) then
          (case parseEther_number (dbl_mult stakedAmount dailyRewardRate) of
             Inl e \<Rightarrow> Inl e
           | Inr wei \<Rightarrow>
               simulate_periods now rnd r stakedAmount (Suc i)
                 (fst acc @ [derived_reward r wei now (rnd (snd acc)) i], Suc (snd acc)))
        else simulate_periods now rnd r stakedAmount (Suc i) acc
      else Inr acc)"
  by pat_completeness auto
termination
  by (relation "measure (\<lambda>(now, rnd, r, st, i, acc). 30 - i)") auto

declare simulate_periods.simps [simp del]

fun simulate_restakers ::
  "int \<Rightarrow> (nat \<Rightarrow> string) \<Rightarrow> restaker list \<Rightarrow> reward list \<times> nat
     \<Rightarrow> exn + reward list \<times> nat" where
  "simulate_restakers now rnd [] acc = Inr acc"
| "simulate_restakers now rnd (r # rs) acc =
     (case amountRestaked r of
        None \<Rightarrow> Inl (Error ''invalid BigNumberish value'')
      | Some wei \<Rightarrow>
          (case simulate_periods now rnd r (parseFloat_formatEther wei) 0 acc of
             Inl e \<Rightarrow> Inl e
           | Inr acc' \<Rightarrow> simulate_restakers now rnd rs acc'))"

definition simulateRewards :: "int \<Rightarrow> (nat \<Rightarrow> string) \<Rightarrow> restaker list \<Rightarrow> exn + reward list" where
  "simulateRewards now rnd restakers =
     (case simulate_restakers now rnd restakers ([], 0) of
        Inl e \<Rightarrow> Inl e
      | Inr acc \<Rightarrow> Inr (fst acc))"

definition eigen_fetchRewardsData ::
  "int \<Rightarrow> (nat \<Rightarrow> string) \<Rightarrow> deposit http \<Rightarrow> exn + reward list" where
  "eigen_fetchRewardsData now rnd resp =
     (case eigen_fetchRestakingData now resp of
        Inl e \<Rightarrow> Inr []
      | Inr restakers \<Rightarrow>
          (case simulateRewards now rnd restakers of
             Inl e \<Rightarrow> Inr []
           | Inr rewards \<Rightarrow> Inr rewards))"

text \<open>
  \<open>forget_hash\<close> blanks the synthetic transaction identifier of a reward.
  \<open>always h\<close> is the random source whose every draw prints as \<open>h\<close>.
\<close>

definition always :: "string \<Rightarrow> nat \<Rightarrow> string" where
  "always h k = h"

definition forget_hash :: "reward \<Rightarrow> reward" where
  "forget_hash rw = rw\<lparr> rw_transactionHash := None \<rparr>"

section \<open>src/src/services/databaseService.js: the store\<close>

text \<open>
  The four tables of \<^verbatim>\<open>createTables\<close>.  A table is the list of its rows in rowid
  order, with the largest rowid it ever held (SQLite's \<^verbatim>\<open>sqlite_sequence\<close>, which
  \<^verbatim>\<open>AUTOINCREMENT\<close> consults: a new row gets a rowid larger than any the table
  ever had).  \<open>clock\<close> is what \<^verbatim>\<open>CURRENT_TIMESTAMP\<close> evaluates to; it belongs to
  the environment and may differ from one statement to the next.
\<close>

record restaker_row =
  rr_id :: nat
  rr_userAddress :: string
  rr_amountRestaked :: nat
  rr_targetAVSValidatorAddress :: "string option"
  rr_strategy :: "string option"
  rr_blockNumber :: "int option"
  rr_transactionHash :: "string option"
  rr_timestamp :: int
  rr_createdAt :: int
  rr_updatedAt :: int

record validator_row =
  vr_id :: nat
  vr_operatorAddress :: string
  vr_operatorId :: "string option"
  vr_totalDelegatedStake :: "nat option"
  vr_validatorStatus :: "string option"
  vr_metadataURI :: "string option"
  vr_createdAt :: int
  vr_updatedAt :: int

record slash_row =
  sr_id :: nat
  sr_operatorAddress :: string
  sr_slashedAmount :: nat
  sr_reason :: "string option"
  sr_blockNumber :: "int option"
  sr_transactionHash :: "string option"
  sr_timestamp :: int

record reward_row =
  rwr_id :: nat
  rwr_userAddress :: string
  rwr_validatorAddress :: string
  rwr_rewardAmount :: nat
  rwr_rewardType :: "string option"
  rwr_blockNumber :: "int option"
  rwr_transactionHash :: "string option"
  rwr_timestamp :: int
  rwr_createdAt :: int

record store =
  restakers :: "restaker_row list"
  restakers_seq :: nat
  validators :: "validator_row list"
  validators_seq :: nat
  slash_history :: "slash_row list"
  slash_history_seq :: nat
  rewards :: "reward_row list"
  rewards_seq :: nat
  clock :: int

definition empty_store :: "int \<Rightarrow> store" where
  "empty_store t =
     \<lparr> restakers = [], restakers_seq = 0, validators = [], validators_seq = 0,
       slash_history = [], slash_history_seq = 0, rewards = [], rewards_seq = 0,
       clock = t \<rparr>"

text \<open>
  \<open>store_with_rewards\<close> is a store that holds nothing but reward rows with the
  given user addresses, validator addresses and amounts.
\<close>

definition sample_reward_row :: "nat \<Rightarrow> string \<times> string \<times> nat \<Rightarrow> reward_row" where
  "sample_reward_row i x =
     \<lparr> rwr_id = Suc i, rwr_userAddress = fst x, rwr_validatorAddress = fst (snd x),
       rwr_rewardAmount = snd (snd x), rwr_rewardType = Some ''restaking'',
       rwr_blockNumber = None, rwr_transactionHash = None, rwr_timestamp = 0,
       rwr_createdAt = 0 \<rparr>"

definition store_with_rewards :: "(string \<times> string \<times> nat) list \<Rightarrow> store" where
  "store_with_rewards xs =
     (empty_store 0)\<lparr> rewards := map (\<lambda>i. sample_reward_row i (xs ! i)) [0..<length xs],
                       rewards_seq := length xs \<rparr>"

subsection \<open>insertRestaker, insertValidator\<close>

text \<open>
  \<^verbatim>\<open>INSERT OR REPLACE\<close>: a \<^verbatim>\<open>NOT NULL\<close> column without default that is bound to
  NULL aborts the statement; otherwise every row that holds the new row's unique
  address is deleted and the new row is inserted.  The statement names no \<^verbatim>\<open>id\<close>,
  \<^verbatim>\<open>timestamp\<close> or \<^verbatim>\<open>createdAt\<close>: the new row takes a fresh rowid and the column
  defaults.  A call resolves with \<^verbatim>\<open>this.lastID\<close>, the new rowid.
\<close>

definition not_null_failed :: "string \<Rightarrow> exn" where
  "not_null_failed column = Error (''SQLITE_CONSTRAINT: NOT NULL constraint failed: '' @ column)"

definition insertRestaker :: "restaker \<Rightarrow> store \<Rightarrow> exn + nat \<times> store" where
  "insertRestaker restakerData db =
     (case userAddress restakerData of
        None \<Rightarrow> Inl (not_null_failed ''restakers.userAddress'')
      | Some a \<Rightarrow>
          (case amountRestaked restakerData of
             None \<Rightarrow> Inl (not_null_failed ''restakers.amountRestaked'')
           | Some amount \<Rightarrow>
               Inr (Suc (restakers_seq db),
                 db\<lparr> restakers :=
                       filter (\<lambda>row. rr_userAddress row \<noteq> a) (restakers db) @
                       [\<lparr> rr_id = Suc (restakers_seq db),
                          rr_userAddress = a,
                          rr_amountRestaked = amount,
                          rr_targetAVSValidatorAddress = targetAVSValidatorAddress restakerData,
                          rr_strategy = strategy restakerData,
                          rr_blockNumber = blockNumber restakerData,
                          rr_transactionHash = transactionHash restakerData,
                          rr_timestamp = clock db,
                          rr_createdAt = clock db,
                          rr_updatedAt = clock db \<rparr>],
                     restakers_seq := Suc (restakers_seq db) \<rparr>)))"

definition insertValidator :: "validator \<Rightarrow> store \<Rightarrow> exn + nat \<times> store" where
  "insertValidator validatorData db =
     (case operatorAddress validatorData of
        None \<Rightarrow> Inl (not_null_failed ''validators.operatorAddress'')
      | Some a \<Rightarrow>
          Inr (Suc (validators_seq db),
            db\<lparr> validators :=
                  filter (\<lambda>row. vr_operatorAddress row \<noteq> a) (validators db) @
                  [\<lparr> vr_id = Suc (validators_seq db),
                     vr_operatorAddress = a,
                     vr_operatorId = operatorId validatorData,
                     vr_totalDelegatedStake = totalDelegatedStake validatorData,
                     vr_validatorStatus = validatorStatus validatorData,
                     vr_metadataURI = metadataURI validatorData,
                     vr_createdAt = clock db,
                     vr_updatedAt = clock db \<rparr>],
                validators_seq := Suc (validators_seq db) \<rparr>))"

text \<open>
  \<open>restaker_upserted r db\<close> and \<open>validator_upserted v db\<close> are the store after the
  statement of \<open>insertRestaker\<close> or \<open>insertValidator\<close> went through, for a record
  that carries the \<^verbatim>\<open>NOT NULL\<close> columns (a well-formed record).
  \<open>restaker_rows_of a db\<close> and \<open>validator_rows_of a db\<close> are the stored rows with
  unique address \<open>a\<close>.  \<open>at_clock t db\<close> is the store \<open>db\<close> at a time when
  \<^verbatim>\<open>CURRENT_TIMESTAMP\<close> is \<open>t\<close>.
\<close>

definition well_formed_restaker :: "restaker \<Rightarrow> bool" where
  "well_formed_restaker r \<longleftrightarrow> userAddress r \<noteq> None \<and> amountRestaked r \<noteq> None"

definition well_formed_validator :: "validator \<Rightarrow> bool" where
  "well_formed_validator v \<longleftrightarrow> operatorAddress v \<noteq> None"

definition restaker_row_for :: "restaker \<Rightarrow> nat \<Rightarrow> int \<Rightarrow> restaker_row" where
  "restaker_row_for r i t =
     \<lparr> rr_id = i,
       rr_userAddress = the (userAddress r),
       rr_amountRestaked = the (amountRestaked r),
       rr_targetAVSValidatorAddress = targetAVSValidatorAddress r,
       rr_strategy = strategy r,
       rr_blockNumber = blockNumber r,
       rr_transactionHash = transactionHash r,
       rr_timestamp = t,
       rr_createdAt = t,
       rr_updatedAt = t \<rparr>"

definition validator_row_for :: "validator \<Rightarrow> nat \<Rightarrow> int \<Rightarrow> validator_row" where
  "validator_row_for v i t =
     \<lparr> vr_id = i,
       vr_operatorAddress = the (operatorAddress v),
       vr_operatorId = operatorId v,
       vr_totalDelegatedStake = totalDelegatedStake v,
       vr_validatorStatus = validatorStatus v,
       vr_metadataURI = metadataURI v,
       vr_createdAt = t,
       vr_updatedAt = t \<rparr>"

definition restaker_upserted :: "restaker \<Rightarrow> store \<Rightarrow> store" where
  "restaker_upserted r db =
     db\<lparr> restakers :=
           filter (\<lambda>row. rr_userAddress row \<noteq> the (userAddress r)) (restakers db) @
           [restaker_row_for r (Suc (restakers_seq db)) (clock db)],
         restakers_seq := Suc (restakers_seq db) \<rparr>"

definition validator_upserted :: "validator \<Rightarrow> store \<Rightarrow> store" where
  "validator_upserted v db =
     db\<lparr> validators :=
           filter (\<lambda>row. vr_operatorAddress row \<noteq> the (operatorAddress v)) (validators db) @
           [validator_row_for v (Suc (validators_seq db)) (clock db)],
         validators_seq := Suc (validators_seq db) \<rparr>"

definition restaker_rows_of :: "string \<Rightarrow> store \<Rightarrow> restaker_row list" where
  "restaker_rows_of a db = filter (\<lambda>row. rr_userAddress row = a) (restakers db)"

definition validator_rows_of :: "string \<Rightarrow> store \<Rightarrow> validator_row list" where
  "validator_rows_of a db = filter (\<lambda>row. vr_operatorAddress row = a) (validators db)"

definition at_clock :: "int \<Rightarrow> store \<Rightarrow> store" where
  "at_clock t db = db\<lparr> clock := t \<rparr>"

subsection \<open>insertReward, insertSlashEvent\<close>

text \<open>
  Plain \<^verbatim>\<open>INSERT\<close>s into tables without a unique key.  SQLite does not enforce the
  foreign key of \<^verbatim>\<open>slash_history\<close> unless asked to, and the program never asks.
\<close>

definition insertReward :: "reward \<Rightarrow> store \<Rightarrow> exn + nat \<times> store" where
  "insertReward rewardData db =
     (case rw_userAddress rewardData of
        None \<Rightarrow> Inl (not_null_failed ''rewards.userAddress'')
      | Some a \<Rightarrow>
          (case validatorAddress rewardData of
             None \<Rightarrow> Inl (not_null_failed ''rewards.validatorAddress'')
           | Some v \<Rightarrow>
               (case rewardAmount rewardData of
                  None \<Rightarrow> Inl (not_null_failed ''rewards.rewardAmount'')
                | Some amount \<Rightarrow>
                    Inr (Suc (rewards_seq db),
                      db\<lparr> rewards := rewards db @
                            [\<lparr> rwr_id = Suc (rewards_seq db),
                               rwr_userAddress = a,
                               rwr_validatorAddress = v,
                               rwr_rewardAmount = amount,
                               rwr_rewardType = rewardType rewardData,
                               rwr_blockNumber = rw_blockNumber rewardData,
                               rwr_transactionHash = rw_transactionHash rewardData,
                               rwr_timestamp = clock db,
                               rwr_createdAt = clock db \<rparr>],
                          rewards_seq := Suc (rewards_seq db) \<rparr>))))"

definition insertSlashEvent :: "slash_event \<Rightarrow> store \<Rightarrow> exn + nat \<times> store" where
  "insertSlashEvent slashData db =
     (case se_operatorAddress slashData of
        None \<Rightarrow> Inl (not_null_failed ''slash_history.operatorAddress'')
      | Some a \<Rightarrow>
          (case slashedAmount slashData of
             None \<Rightarrow> Inl (not_null_failed ''slash_history.slashedAmount'')
           | Some amount \<Rightarrow>
               Inr (Suc (slash_history_seq db),
                 db\<lparr> slash_history := slash_history db @
                       [\<lparr> sr_id = Suc (slash_history_seq db),
                          sr_operatorAddress = a,
                          sr_slashedAmount = amount,
                          sr_reason = reason slashData,
                          sr_blockNumber = se_blockNumber slashData,
                          sr_transactionHash = se_transactionHash slashData,
                          sr_timestamp = clock db \<rparr>],
                     slash_history_seq := Suc (slash_history_seq db) \<rparr>)))"

subsection \<open>getRewardsByAddress\<close>

text \<open>
  \<^verbatim>\<open>SUM(CAST(rewardAmount as REAL))\<close>: each amount is converted to a double and the
  doubles are added up in row order, every addition rounding (SQLite up to 3.42;
  later versions carry a compensation term along and round once more at the end:
  the sum they return is a double as well).  Over no rows the sum is NULL.  \<^verbatim>\<open>row?.totalRestakingRewardsReceived || '0'\<close> turns NULL and the number
  zero into the string \<^verbatim>\<open>'0'\<close>.  SQL leaves the order of the groups of
  \<^verbatim>\<open>GROUP BY\<close> open; the model lists them by \<open>remdups\<close>.  The third query returns
  four columns of the 50 latest rows; the model returns the rows.
\<close>

definition cast_real :: "nat \<Rightarrow> double" where
  "cast_real n = to_double n 1"

definition sql_sum_real :: "nat list \<Rightarrow> double" where
  "sql_sum_real amounts = foldl dbl_add (0, 0) (map cast_real amounts)"

datatype js_total = JNumber double | JString string

definition total_or_zero :: "nat list \<Rightarrow> js_total" where
  "total_or_zero amounts =
     (if amounts = [] \<or> fst (sql_sum_real amounts) = 0 then JString ''0''
      else JNumber (sql_sum_real amounts))"

record breakdown =
  bd_validatorAddress :: string
  totalRewards :: double
  rewardCount :: nat
  firstReward :: int
  lastReward :: int

definition group_breakdown :: "string \<Rightarrow> reward_row list \<Rightarrow> breakdown" where
  "group_breakdown v g =
     \<lparr> bd_validatorAddress = v,
       totalRewards = sql_sum_real (map rwr_rewardAmount g),
       rewardCount = length g,
       firstReward = fold min (map rwr_timestamp g) (rwr_timestamp (hd g)),
       lastReward = fold max (map rwr_timestamp g) (rwr_timestamp (hd g)) \<rparr>"

record rewards_result =
  totalRestakingRewardsReceived :: js_total
  breakdownPerValidator :: "breakdown list"
  rewardTimestamps :: "reward_row list"

definition rewards_of :: "string \<Rightarrow> store \<Rightarrow> reward_row list" where
  "rewards_of a db = filter (\<lambda>row. rwr_userAddress row = a) (rewards db)"

definition getRewardsByAddress :: "string \<Rightarrow> store \<Rightarrow> rewards_result" where
  "getRewardsByAddress a db =
     \<lparr> totalRestakingRewardsReceived = total_or_zero (map rwr_rewardAmount (rewards_of a db)),
       breakdownPerValidator =
         map (\<lambda>v. group_breakdown v
                (filter (\<lambda>row. rwr_validatorAddress row = v) (rewards_of a db)))
           (remdups (map rwr_validatorAddress (rewards_of a db))),
       rewardTimestamps = take 50 (rev (sort_key rwr_timestamp (rewards_of a db))) \<rparr>"

text \<open>
  \<open>total_is t n\<close>: the returned total \<open>t\<close> is the integer \<open>n\<close>.
  \<open>exact_total\<close> and \<open>exact_validator_total\<close> are the sums of the stored amounts in
  integer arithmetic.
\<close>

definition total_is :: "js_total \<Rightarrow> nat \<Rightarrow> bool" where
  "total_is t n =
     (case t of JNumber x \<Rightarrow> dbl_val x = of_nat n | JString s \<Rightarrow> s = ''0'' \<and> n = 0)"

definition exact_total :: "string \<Rightarrow> store \<Rightarrow> nat" where
  "exact_total a db = sum_list (map rwr_rewardAmount (rewards_of a db))"

definition exact_validator_total :: "string \<Rightarrow> string \<Rightarrow> store \<Rightarrow> nat" where
  "exact_validator_total a v db =
     sum_list (map rwr_rewardAmount
       (filter (\<lambda>row. rwr_validatorAddress row = v) (rewards_of a db)))"

section \<open>src/src/scripts/fetchData.js: the fetch orchestrator\<close>

subsection \<open>Task results and the insert loops\<close>

text \<open>
  What a task returns: \<^verbatim>\<open>{success: true, inserted, errors}\<close>,
  \<^verbatim>\<open>{success: true, data}\<close> or \<^verbatim>\<open>{success: false, error}\<close>.  \<open>lido_data\<close> holds the two
  values of the metrics object that the task reads.
\<close>

record lido_data =
  l_totalPooledEther :: "string option"
  l_apr :: "string option"

datatype task_result = Summary nat nat | Data lido_data | Failed string

definition message :: "exn \<Rightarrow> string" where
  "message e = (case e of Error m \<Rightarrow> m)"

definition is_unique_violation :: "exn \<Rightarrow> bool" where
  "is_unique_violation e = sublist ''UNIQUE constraint failed'' (message e)"

text \<open>
  The \<^verbatim>\<open>for\<close> loops of the four persisting tasks.  The accumulator is
  \<^verbatim>\<open>insertedCount\<close>, \<^verbatim>\<open>errorCount\<close> and the store.  The loops over restakers and
  validators do not count an error whose message includes
  \<^verbatim>\<open>'UNIQUE constraint failed'\<close>; the loops over rewards and slash events count every
  error.  A failed statement leaves the store as it was.
\<close>

fun insert_all_dedup ::
  "('r \<Rightarrow> store \<Rightarrow> exn + nat \<times> store) \<Rightarrow> 'r list \<Rightarrow> nat \<times> nat \<times> store \<Rightarrow> nat \<times> nat \<times> store" where
  "insert_all_dedup ins [] acc = acc"
| "insert_all_dedup ins (x # xs) (insertedCount, errorCount, db) =
     (case ins x db of
        Inr (lastID, db') \<Rightarrow> insert_all_dedup ins xs (Suc insertedCount, errorCount, db')
      | Inl e \<Rightarrow>
          if \<not> is_unique_violation e
          then insert_all_dedup ins xs (insertedCount, Suc errorCount, db)
          else insert_all_dedup ins xs (insertedCount, errorCount, db))"

fun insert_all ::
  "('r \<Rightarrow> store \<Rightarrow> exn + nat \<times> store) \<Rightarrow> 'r list \<Rightarrow> nat \<times> nat \<times> store \<Rightarrow> nat \<times> nat \<times> store" where
  "insert_all ins [] acc = acc"
| "insert_all ins (x # xs) (insertedCount, errorCount, db) =
     (case ins x db of
        Inr (lastID, db') \<Rightarrow> insert_all ins xs (Suc insertedCount, errorCount, db')
      | Inl e \<Rightarrow> insert_all ins xs (insertedCount, Suc errorCount, db))"

text \<open>
  \<open>write_outcomes\<close> lists, for a batch written from a given store, what each write
  of the batch does in turn: \<open>None\<close> when it succeeds, its error when it fails.
\<close>

fun write_outcomes ::
  "('r \<Rightarrow> store \<Rightarrow> exn + nat \<times> store) \<Rightarrow> 'r list \<Rightarrow> store \<Rightarrow> exn option list" where
  "write_outcomes ins [] db = []"
| "write_outcomes ins (x # xs) db =
     (case ins x db of
        Inr (lastID, db') \<Rightarrow> None # write_outcomes ins xs db'
      | Inl e \<Rightarrow> Some e # write_outcomes ins xs db)"

text \<open>
  \<open>duplicate_key\<close> is a write that always fails on the unique constraint of
  \<^verbatim>\<open>restakers.userAddress\<close>, as a plain \<^verbatim>\<open>INSERT\<close> of a stored address would.
\<close>

definition duplicate_key :: "string \<Rightarrow> store \<Rightarrow> exn + nat \<times> store" where
  "duplicate_key a db =
     Inl (Error ''SQLITE_CONSTRAINT: UNIQUE constraint failed: restakers.userAddress'')"

definition succeeded :: "exn option \<Rightarrow> bool" where
  "succeeded outcome = (outcome = None)"

definition counted_error :: "exn option \<Rightarrow> bool" where
  "counted_error outcome =
     (case outcome of None \<Rightarrow> False | Some e \<Rightarrow> \<not> is_unique_violation e)"

definition failed :: "exn option \<Rightarrow> bool" where
  "failed outcome = (outcome \<noteq> None)"

text \<open>
  \<open>has_counts_or_error r\<close>: the result \<open>r\<close> carries an inserted count and an error
  count, or is a failure with its message.  \<open>has_data_or_error r\<close>: it carries a data
  object, or is a failure with its message.
\<close>

definition has_counts_or_error :: "task_result \<Rightarrow> bool" where
  "has_counts_or_error r =
     (case r of Summary i e \<Rightarrow> True | Data d \<Rightarrow> False | Failed m \<Rightarrow> True)"

definition has_data_or_error :: "task_result \<Rightarrow> bool" where
  "has_data_or_error r =
     (case r of Summary i e \<Rightarrow> False | Data d \<Rightarrow> True | Failed m \<Rightarrow> True)"

subsection \<open>The five tasks\<close>

text \<open>
  Each task is an \<^verbatim>\<open>async\<close> function whose whole body is a \<^verbatim>\<open>try\<close> with a
  \<^verbatim>\<open>catch\<close> that returns \<^verbatim>\<open>{success: false, error: error.message}\<close>.  The adapter
  call of a task is evaluated on the response that the task's own request receives.
  The metrics task takes what \<^verbatim>\<open>lidoService.fetchLidoData()\<close> settles to.
\<close>

definition fetcher_fetchRestakingData ::
  "int \<Rightarrow> deposit http \<Rightarrow> store \<Rightarrow> task_result \<times> store" where
  "fetcher_fetchRestakingData now resp db =
     (case eigen_fetchRestakingData now resp of
        Inl e \<Rightarrow> (Failed (message e), db)
      | Inr restakingData \<Rightarrow>
          (case insert_all_dedup insertRestaker restakingData (0, 0, db) of
             (insertedCount, errorCount, db') \<Rightarrow> (Summary insertedCount errorCount, db')))"

definition fetcher_fetchValidatorData ::
  "operator http \<Rightarrow> store \<Rightarrow> task_result \<times> store" where
  "fetcher_fetchValidatorData resp db =
     (case eigen_fetchValidatorData resp of
        Inl e \<Rightarrow> (Failed (message e), db)
      | Inr validatorData \<Rightarrow>
          (case insert_all_dedup insertValidator validatorData (0, 0, db) of
             (insertedCount, errorCount, db') \<Rightarrow> (Summary insertedCount errorCount, db')))"

definition fetcher_fetchRewardsData ::
  "int \<Rightarrow> (nat \<Rightarrow> string) \<Rightarrow> deposit http \<Rightarrow> store \<Rightarrow> task_result \<times> store" where
  "fetcher_fetchRewardsData now rnd resp db =
     (case eigen_fetchRewardsData now rnd resp of
        Inl e \<Rightarrow> (Failed (message e), db)
      | Inr rewardsData \<Rightarrow>
          (case insert_all insertReward rewardsData (0, 0, db) of
             (insertedCount, errorCount, db') \<Rightarrow> (Summary insertedCount errorCount, db')))"

definition fetcher_fetchSlashingData :: "store \<Rightarrow> task_result \<times> store" where
  "fetcher_fetchSlashingData db =
     (case fetchSlashingEvents of
        Inl e \<Rightarrow> (Failed (message e), db)
      | Inr slashingData \<Rightarrow>
          (case insert_all insertSlashEvent slashingData (0, 0, db) of
             (insertedCount, errorCount, db') \<Rightarrow> (Summary insertedCount errorCount, db')))"

definition fetcher_fetchLidoData :: "exn + lido_data \<Rightarrow> task_result" where
  "fetcher_fetchLidoData lido =
     (case lido of
        Inl e \<Rightarrow> Failed (message e)
      | Inr lidoData \<Rightarrow> Data lidoData)"

subsection \<open>fetchAllData\<close>

text \<open>
  The orchestrator's state is its \<^verbatim>\<open>isRunning\<close> flag; the store is the other state a
  cycle touches.  \<open>cycle_env\<close> is what the environment supplies to one cycle: the
  clock, the random source, whether \<^verbatim>\<open>initializeDatabase\<close> throws, the responses to
  the three graph queries of the cycle (the rewards task sends a deposits query of
  its own) and the outcome of the metrics fetch.

  \<open>enter_cycle\<close> is lines 20-26, which run without suspension: the test of the flag
  and, past it, its setting.  \<open>end_cycle\<close> is the \<^verbatim>\<open>finally\<close> block.  \<open>run_tasks\<close> is
  \<^verbatim>\<open>Promise.allSettled\<close> over the five tasks: each task runs whatever the others
  return.  The four persisting tasks write four different tables, so the store they
  leave does not depend on how their writes interleave; the model runs them in the
  order of the array.  \<open>fetchAllData\<close> returns nothing to its caller; the model
  returns the results that it passes to \<^verbatim>\<open>logFetchResults\<close>.
\<close>

record world =
  isRunning :: bool
  world_db :: store

record cycle_env =
  env_now :: int
  env_random :: "nat \<Rightarrow> string"
  env_init :: "exn option"
  env_restaking :: "deposit http"
  env_validators :: "operator http"
  env_rewards_restaking :: "deposit http"
  env_lido :: "exn + lido_data"

datatype 'a settled = Fulfilled 'a | Rejected exn

datatype cycle_outcome = Skipped | Completed "task_result settled list" | Threw exn

definition enter_cycle :: "world \<Rightarrow> world option" where
  "enter_cycle w = (if isRunning w then None else Some (w\<lparr> isRunning := True \<rparr>))"

definition end_cycle :: "world \<Rightarrow> world" where
  "end_cycle w = w\<lparr> isRunning := False \<rparr>"

definition run_tasks :: "cycle_env \<Rightarrow> store \<Rightarrow> task_result settled list \<times> store" where
  "run_tasks env db0 =
     (case fetcher_fetchRestakingData (env_now env) (env_restaking env) db0 of
        (restakingData, db1) \<Rightarrow>
     (case fetcher_fetchValidatorData (env_validators env) db1 of
        (validatorData, db2) \<Rightarrow>
     (case fetcher_fetchRewardsData (env_now env) (env_random env)
             (env_rewards_restaking env) db2 of
        (rewardsData, db3) \<Rightarrow>
     (case fetcher_fetchSlashingData db3 of
        (slashingData, db4) \<Rightarrow>
          ([Fulfilled restakingData, Fulfilled validatorData, Fulfilled rewardsData,
            Fulfilled slashingData, Fulfilled (fetcher_fetchLidoData (env_lido env))],
           db4)))))"

definition fetchAllData :: "cycle_env \<Rightarrow> world \<Rightarrow> cycle_outcome \<times> world" where
  "fetchAllData env w =
     (case enter_cycle w of
        None \<Rightarrow> (Skipped, w)
      | Some w1 \<Rightarrow>
          (case env_init env of
             Some e \<Rightarrow> (Threw e, end_cycle w1)
           | None \<Rightarrow>
               (case run_tasks env (world_db w1) of
                  (results, db') \<Rightarrow> (Completed results, end_cycle (w1\<lparr> world_db := db' \<rparr>)))))"

subsection \<open>Overlapping calls\<close>

text \<open>
  JavaScript runs one callback at a time, and a cycle gives way to other callbacks
  only at its \<^verbatim>\<open>await\<close>s.  What timers, manual triggers and a running cycle can do to
  the shared state is therefore a sequence of three kinds of events: \<open>Invoke\<close>, a
  call of \<^verbatim>\<open>fetchAllData\<close> running up to its first \<^verbatim>\<open>await\<close> (\<open>enter_cycle\<close>);
  \<open>Store_write f\<close>, a task of a cycle in flight performing one write \<open>f\<close>; and
  \<open>Settle\<close>, a cycle in flight running its \<^verbatim>\<open>finally\<close> block (\<open>end_cycle\<close>), whether
  its tasks settled or \<^verbatim>\<open>initializeDatabase\<close> threw.  Beside the program's state the
  system records, for the statement of properties only, the number of cycles in
  flight, of cycles started and of writes performed.
\<close>

datatype event = Invoke | Store_write "store \<Rightarrow> store" | Settle

record system =
  the_world :: world
  in_flight :: nat
  started :: nat
  writes :: nat

definition initial_system :: "store \<Rightarrow> system" where
  "initial_system db0 =
     \<lparr> the_world = \<lparr> isRunning = False, world_db = db0 \<rparr>, in_flight = 0, started = 0, writes = 0 \<rparr>"

fun step :: "system \<Rightarrow> event \<Rightarrow> system" where
  "step s Invoke =
     (case enter_cycle (the_world s) of
        None \<Rightarrow> s
      | Some w1 \<Rightarrow> s\<lparr> the_world := w1, in_flight := Suc (in_flight s), started := Suc (started s) \<rparr>)"
| "step s (Store_write f) =
     (if in_flight s = 0 then s
      else s\<lparr> the_world := (the_world s)\<lparr> world_db := f (world_db (the_world s)) \<rparr>,
              writes := Suc (writes s) \<rparr>)"
| "step s Settle =
     (if in_flight s = 0 then s
      else s\<lparr> the_world := end_cycle (the_world s), in_flight := in_flight s - 1 \<rparr>)"

definition run :: "system \<Rightarrow> event list \<Rightarrow> system" where
  "run s events = foldl step s events"

definition gate_invariant :: "system \<Rightarrow> bool" where
  "gate_invariant s \<longleftrightarrow>
     in_flight s \<le> 1 \<and> (isRunning (the_world s) \<longleftrightarrow> in_flight s = 1)"

section \<open>src/src/scripts/scheduler.js: the scheduler\<close>

text \<open>
  \<open>cron_tasks\<close> is the table of the tasks that \<^verbatim>\<open>cron.schedule\<close> has created, each
  with its expression, its callback and whether it is started; a task is referred to
  by its index.  \<open>tasks\<close> is the scheduler's \<^verbatim>\<open>Map\<close> from names to tasks, in insertion
  order.  \<open>refresh_env\<close> is \<^verbatim>\<open>process.env.DATA_REFRESH_INTERVAL\<close>, and
  \<open>initial_fetches\<close> counts the \<^verbatim>\<open>setTimeout\<close> callbacks registered by \<^verbatim>\<open>start\<close>.
  \<open>validate\<close> is \<^verbatim>\<open>cron.validate\<close>; \<^verbatim>\<open>cron.schedule\<close> throws on an expression that
  it rejects.  An operation returns the exception it throws, if any, and the state.
\<close>

datatype callback = Main_refresh | Health_check

record cron_task =
  expression :: string
  callback :: callback
  started_task :: bool

record scheduler =
  tasks :: "(string \<times> nat) list"
  scheduler_isRunning :: bool
  cron_tasks :: "cron_task list"
  refresh_env :: "string option"
  initial_fetches :: nat

definition new_scheduler :: "string option \<Rightarrow> scheduler" where
  "new_scheduler env =
     \<lparr> tasks = [], scheduler_isRunning = False, cron_tasks = [], refresh_env = env,
       initial_fetches = 0 \<rparr>"

fun map_set :: "string \<Rightarrow> nat \<Rightarrow> (string \<times> nat) list \<Rightarrow> (string \<times> nat) list" where
  "map_set k v [] = [(k, v)]"
| "map_set k v ((k', v') # kvs) =
     (if k = k' then (k, v) # kvs else (k', v') # map_set k v kvs)"

definition task_stop :: "nat \<Rightarrow> cron_task list \<Rightarrow> cron_task list" where
  "task_stop h ts = (if h < length ts then ts[h := (ts ! h)\<lparr> started_task := False \<rparr>] else ts)"

definition task_start :: "nat \<Rightarrow> cron_task list \<Rightarrow> cron_task list" where
  "task_start h ts = (if h < length ts then ts[h := (ts ! h)\<lparr> started_task := True \<rparr>] else ts)"

definition refreshInterval :: "scheduler \<Rightarrow> string" where
  "refreshInterval s =
     (case refresh_env s of
        None \<Rightarrow> ''*/30 * * * *''
      | Some x \<Rightarrow> if x = [] then ''*/30 * * * *'' else x)"

definition start :: "(string \<Rightarrow> bool) \<Rightarrow> scheduler \<Rightarrow> exn option \<times> scheduler" where
  "start validate s =
     (if scheduler_isRunning s then (None, s)
      else if \<not> validate (refreshInterval s) then (Some (Error ''Invalid cron expression''), s)
      else
        let mainTask = length (cron_tasks s);
            s1 = s\<lparr> cron_tasks := cron_tasks s @
                   [\<lparr> expression = refreshInterval s, callback = Main_refresh,
                      started_task = False \<rparr>] \<rparr>
        in if \<not> validate ''*/5 * * * *'' then (Some (Error ''Invalid cron expression''), s1)
           else
             let healthCheckTask = length (cron_tasks s1);
                 s2 = s1\<lparr> cron_tasks := cron_tasks s1 @
                        [\<lparr> expression = ''*/5 * * * *'', callback = Health_check,
                           started_task = False \<rparr>] \<rparr>;
                 s3 = s2\<lparr> tasks :=
                        map_set ''healthCheck'' healthCheckTask
                          (map_set ''main'' mainTask (tasks s2)) \<rparr>;
                 s4 = s3\<lparr> cron_tasks :=
                        task_start healthCheckTask (task_start mainTask (cron_tasks s3)) \<rparr>
             in (None, s4\<lparr> scheduler_isRunning := True,
                          initial_fetches := Suc (initial_fetches s4) \<rparr>))"

definition stop :: "scheduler \<Rightarrow> scheduler" where
  "stop s =
     (if \<not> scheduler_isRunning s then s
      else s\<lparr> cron_tasks := fold task_stop (map snd (tasks s)) (cron_tasks s),
              tasks := [],
              scheduler_isRunning := False \<rparr>)"

definition updateRefreshInterval ::
  "(string \<Rightarrow> bool) \<Rightarrow> string \<Rightarrow> scheduler \<Rightarrow> exn option \<times> scheduler" where
  "updateRefreshInterval validate newInterval s =
     (if \<not> validate newInterval then (Some (Error ''Invalid cron expression''), s)
      else if scheduler_isRunning s then
        let s1 = (case map_of (tasks s) ''main'' of
                    None \<Rightarrow> s
                  | Some h \<Rightarrow> s\<lparr> cron_tasks := task_stop h (cron_tasks s) \<rparr>);
            newTask = length (cron_tasks s1);
            s2 = s1\<lparr> cron_tasks := cron_tasks s1 @
                   [\<lparr> expression = newInterval, callback = Main_refresh,
                      started_task = True \<rparr>] \<rparr>
        in (None, s2\<lparr> tasks := map_set ''main'' newTask (tasks s2),
                     refresh_env := Some newInterval \<rparr>)
      else (None, s\<lparr> refresh_env := Some newInterval \<rparr>))"

datatype refresh_result = Success

definition triggerRefresh ::
  "scheduler \<Rightarrow> cycle_env \<Rightarrow> world \<Rightarrow> (exn + refresh_result) \<times> world" where
  "triggerRefresh s env w =
     (if \<not> scheduler_isRunning s then (Inl (Error ''Scheduler is not running''), w)
      else
        (case fetchAllData env w of
           (Threw e, w') \<Rightarrow> (Inl e, w')
         | (outcome, w') \<Rightarrow> (Inr Success, w')))"

text \<open>
  \<open>active_timers c s\<close> lists the started cron tasks with callback \<open>c\<close>.  A
  lifecycle is a sequence of calls of \<^verbatim>\<open>start\<close>, \<^verbatim>\<open>stop\<close> and
  \<^verbatim>\<open>updateRefreshInterval\<close> on a new scheduler.
\<close>

definition active_timers :: "callback \<Rightarrow> scheduler \<Rightarrow> nat list" where
  "active_timers c s =
     filter (\<lambda>h. started_task (cron_tasks s ! h) \<and> callback (cron_tasks s ! h) = c)
       [0..<length (cron_tasks s)]"

datatype operation = Start | Stop | Update_interval string

fun apply_operation :: "(string \<Rightarrow> bool) \<Rightarrow> scheduler \<Rightarrow> operation \<Rightarrow> scheduler" where
  "apply_operation validate s Start = snd (start validate s)"
| "apply_operation validate s Stop = stop s"
| "apply_operation validate s (Update_interval x) = snd (updateRefreshInterval validate x s)"

definition lifecycle :: "(string \<Rightarrow> bool) \<Rightarrow> string option \<Rightarrow> operation list \<Rightarrow> scheduler" where
  "lifecycle validate env ops = foldl (apply_operation validate) (new_scheduler env) ops"

text \<open>
  The state that every lifecycle keeps: a running scheduler holds exactly the two
  tasks \<^verbatim>\<open>main\<close> and \<^verbatim>\<open>healthCheck\<close>, which are the only started cron tasks; a
  scheduler that is not running holds no task and no cron task is started.
\<close>

definition scheduler_invariant :: "scheduler \<Rightarrow> bool" where
  "scheduler_invariant s \<longleftrightarrow>
     (if scheduler_isRunning s
      then (\<exists>m h. tasks s = [(''main'', m), (''healthCheck'', h)]
              \<and> m \<noteq> h \<and> m < length (cron_tasks s) \<and> h < length (cron_tasks s)
              \<and> callback (cron_tasks s ! m) = Main_refresh
              \<and> callback (cron_tasks s ! h) = Health_check
              \<and> (\<forall>i < length (cron_tasks s).
                    started_task (cron_tasks s ! i) \<longleftrightarrow> i = m \<or> i = h))
      else tasks s = []
             \<and> (\<forall>i < length (cron_tasks s). \<not> started_task (cron_tasks s ! i)))"

section \<open>Doubles: evaluation and exactness\<close>

text \<open>
  Rules that evaluate \<open>floorlog\<close> and the arithmetic of doubles on numerals.
\<close>

lemma floorlog_numeral:
  "floorlog (numeral b) (numeral n) =
     (if 1 < (numeral b :: nat) then floorlog (numeral b) (numeral n div numeral b) + 1 else 0)"
  by (subst compute_floorlog) simp

lemma floorlog_zero: "floorlog b 0 = 0"
  by (simp add: floorlog_def)

lemma floorlog_one: "floorlog (numeral b) 1 = (if 1 < (numeral b :: nat) then 1 else 0)"
  by (subst compute_floorlog) (simp add: floorlog_zero)

lemma floorlog_Suc_0: "floorlog (numeral b) (Suc 0) = (if 1 < (numeral b :: nat) then 1 else 0)"
  using floorlog_one by simp

lemmas dbl_eval = to_double_def round_half_even_def dbl_num_def dbl_den_def dbl_mult_def
  dbl_less_def floorlog_numeral floorlog_zero floorlog_one floorlog_Suc_0 Let_def

lemmas shortest_digits_eval =
  shortest_digits.simps [of _ _ 1] shortest_digits.simps [of _ _ "numeral k" for k]
  scaled_num_def scaled_den_def decimal_to_double_def

text \<open>
  Integers below \<open>2^53\<close> are doubles, and so are their sums: \<^verbatim>\<open>CAST\<close> and
  addition are exact there.
\<close>

lemma floorlog_2_power: "floorlog 2 (2 ^ j) = Suc j"
  using floorlog_power [of 1 2 j] by (simp add: compute_floorlog [of 2 1] floorlog_def)

lemma to_double_shift:
  assumes "0 < p" "0 < k"
    and s: "int (floorlog 2 p) - int (floorlog 2 q) - 53 = - int k"
    and big: "2 ^ 53 \<le> p * 2 ^ k div q"
    and rhe: "round_half_even (p * 2 ^ k) (2 * q) = m"
    and m: "m < 2 ^ 53"
  shows "to_double p q = (m, 1 - int k)"
proof -
  have "nat (- (- int k)) = k" by simp
  with assms show ?thesis
    unfolding to_double_def s by (simp add: Let_def)
qed

lemma to_double_scaled:
  assumes "0 < v" "v < 2 ^ 53"
  shows "to_double (v * 2 ^ j) (2 ^ j) = (v * 2 ^ (53 - floorlog 2 v), - int (53 - floorlog 2 v))"
proof -
  define l where "l = floorlog 2 v"
  have l1: "1 \<le> l" using assms(1) by (simp add: l_def floorlog_def)
  have l53: "l \<le> 53" using assms(2) by (simp add: l_def floorlog_le_iff)
  have lo: "2 ^ (l - 1) \<le> v" and hi: "v < 2 ^ l"
    using floorlog_bounds [of v 2] assms(1) by (simp_all add: l_def)
  have fl_p: "floorlog 2 (v * 2 ^ j) = l + j"
    using assms(1) by (simp add: l_def)
  have s: "int (floorlog 2 (v * 2 ^ j)) - int (floorlog 2 (2 ^ j)) - 53 = - int (54 - l)"
    using l53 by (simp add: fl_p floorlog_2_power)
  have k: "54 - l = Suc (53 - l)" using l53 by simp
  have big: "(2::nat) ^ 53 \<le> v * 2 ^ (54 - l)"
  proof -
    have "(2::nat) ^ 53 = 2 ^ (l - 1) * 2 ^ (54 - l)"
      using l1 l53 by (simp flip: power_add)
    also have "\<dots> \<le> v * 2 ^ (54 - l)" using lo by simp
    finally show ?thesis .
  qed
  have small: "v * 2 ^ (53 - l) < 2 ^ 53"
  proof -
    have "v * 2 ^ (53 - l) < 2 ^ l * 2 ^ (53 - l)" using hi by simp
    also have "\<dots> = 2 ^ 53" using l53 by (simp flip: power_add)
    finally show ?thesis .
  qed
  have dv: "v * 2 ^ j * 2 ^ (54 - l) div 2 ^ j = v * 2 ^ (54 - l)"
    by (simp add: mult.assoc mult.left_commute [of "2 ^ j"])
  have n_eq: "v * 2 ^ j * 2 ^ (54 - l) = v * 2 ^ (53 - l) * (2 * 2 ^ j)"
    by (simp add: k)
  have rhe: "round_half_even (v * 2 ^ j * 2 ^ (54 - l)) (2 * 2 ^ j) = v * 2 ^ (53 - l)"
    unfolding n_eq round_half_even_def by simp
  have "to_double (v * 2 ^ j) (2 ^ j) = (v * 2 ^ (53 - l), 1 - int (54 - l))"
  proof (rule to_double_shift)
    show "0 < v * 2 ^ j" using assms(1) by simp
    show "0 < 54 - l" using l53 by simp
    show "int (floorlog 2 (v * 2 ^ j)) - int (floorlog 2 (2 ^ j)) - 53 = - int (54 - l)"
      by (rule s)
    show "2 ^ 53 \<le> v * 2 ^ j * 2 ^ (54 - l) div 2 ^ j"
      unfolding dv by (rule big)
    show "round_half_even (v * 2 ^ j * 2 ^ (54 - l)) (2 * 2 ^ j) = v * 2 ^ (53 - l)"
      by (rule rhe)
    show "v * 2 ^ (53 - l) < 2 ^ 53" by (rule small)
  qed
  moreover have "1 - int (54 - l) = - int (53 - l)" using l53 by simp
  ultimately show ?thesis by (simp add: l_def)
qed

lemma cast_real_repr:
  assumes "v < 2 ^ 53"
  shows "\<exists>k. dbl_num (cast_real v) = v * 2 ^ k \<and> dbl_den (cast_real v) = 2 ^ k"
proof (cases "v = 0")
  case True
  then show ?thesis
    by (auto simp: cast_real_def to_double_def dbl_num_def dbl_den_def intro: exI [of _ 0])
next
  case False
  with assms to_double_scaled [of v 0]
  have "cast_real v = (v * 2 ^ (53 - floorlog 2 v), - int (53 - floorlog 2 v))"
    by (simp add: cast_real_def)
  then show ?thesis
    by (auto simp: dbl_num_def dbl_den_def intro!: exI [of _ "53 - floorlog 2 v"])
qed

lemma to_double_exact:
  assumes "v < 2 ^ 53"
  shows "to_double (v * 2 ^ j) (2 ^ j) = cast_real v"
proof (cases "v = 0")
  case True
  then show ?thesis by (simp add: to_double_def cast_real_def)
next
  case False
  with assms to_double_scaled [of v j] to_double_scaled [of v 0] show ?thesis
    by (simp add: cast_real_def)
qed

lemma dbl_add_exact:
  assumes "u + v < 2 ^ 53"
  shows "dbl_add (cast_real u) (cast_real v) = cast_real (u + v)"
proof -
  from assms have "u < 2 ^ 53" "v < 2 ^ 53" by simp_all
  then obtain a b where
    a: "dbl_num (cast_real u) = u * 2 ^ a" "dbl_den (cast_real u) = 2 ^ a" and
    b: "dbl_num (cast_real v) = v * 2 ^ b" "dbl_den (cast_real v) = 2 ^ b"
    using cast_real_repr by blast
  have n: "u * 2 ^ a * 2 ^ b + v * 2 ^ b * 2 ^ a = (u + v) * 2 ^ (a + b)"
    by (simp add: power_add algebra_simps)
  have d: "(2::nat) ^ a * 2 ^ b = 2 ^ (a + b)"
    by (simp add: power_add)
  have "dbl_add (cast_real u) (cast_real v) = to_double ((u + v) * 2 ^ (a + b)) (2 ^ (a + b))"
    unfolding dbl_add_def a b n d ..
  with assms show ?thesis by (simp only: to_double_exact)
qed

lemma dbl_val_exact: "v < 2 ^ 53 \<Longrightarrow> dbl_val (cast_real v) = of_nat v"
  using cast_real_repr [of v] by (auto simp: dbl_val_def)

lemma foldl_dbl_add_exact:
  "a + sum_list xs < 2 ^ 53 \<Longrightarrow>
   foldl dbl_add (cast_real a) (map cast_real xs) = cast_real (a + sum_list xs)"
proof (induction xs arbitrary: a)
  case Nil
  then show ?case by simp
next
  case (Cons x xs)
  then have "a + x < 2 ^ 53" by simp
  then have "dbl_add (cast_real a) (cast_real x) = cast_real (a + x)"
    by (rule dbl_add_exact)
  with Cons.IH [of "a + x"] Cons.prems show ?case by (simp add: add.assoc)
qed

lemma sql_sum_real_exact:
  "sum_list xs < 2 ^ 53 \<Longrightarrow> sql_sum_real xs = cast_real (sum_list xs)"
  using foldl_dbl_add_exact [of 0 xs] by (simp add: sql_sum_real_def cast_real_def to_double_def)

section \<open>The adapter: failure test and fallback\<close>

lemma processDeposit_valid:
  "valid_deposit d \<Longrightarrow> processDeposit d = Inr (normalise_deposit d)"
  by (auto simp: valid_deposit_def processDeposit_def toISOString_def normalise_deposit_def
      split: option.splits)

lemma processRestakingData_valid:
  "list_all valid_deposit ds \<Longrightarrow> processRestakingData ds = Inr (map normalise_deposit ds)"
  by (induction ds) (simp_all add: processDeposit_valid)

text \<open>
  C6, as stated: the adapter takes the fallback path exactly when the errors array is
  non-empty.  The code tests the errors entry for truthiness, so an envelope whose
  errors array is empty, beside a well-formed data payload, is a failure too.
\<close>

theorem errors_empty_array_is_failure:
  "isl (fetchRestakingData_request
          (Response \<lparr> errors = Some [], payload = Some [] \<rparr>))
   \<and> \<not> errors_nonempty \<lparr> errors = Some [], payload = (Some [] :: deposit list option) \<rparr>
   \<and> eigen_fetchRestakingData 0 (Response \<lparr> errors = Some [], payload = Some [] \<rparr>)
       = Inr (getMockRestakingData 0)"
  by (simp add: fetchRestakingData_request_def errors_nonempty_def eigen_fetchRestakingData_def)

text \<open>
  C6, amended: an envelope with an errors array, empty or not, is a failure of both
  adapter calls and gives the fallback data; an envelope without an errors entry
  whose data payload is a list of deposits with valid block timestamps (for the
  validator call: any list of operators) is normalised and returned.
\<close>

theorem errors_entry_decides_failure:
  "(errors env = Some es \<longrightarrow>
      fetchRestakingData_request (Response env) = Inl (Error (graphql_errors_message es))
      \<and> eigen_fetchRestakingData now (Response env) = Inr (getMockRestakingData now))
   \<and> (errors venv = Some es \<longrightarrow>
      fetchValidatorData_request (Response venv) = Inl (Error (graphql_errors_message es))
      \<and> eigen_fetchValidatorData (Response venv) = Inr getMockValidatorData)
   \<and> (errors env = None \<and> payload env = Some ds \<and> list_all valid_deposit ds \<longrightarrow>
      eigen_fetchRestakingData now (Response env) = Inr (map normalise_deposit ds))
   \<and> (errors venv = None \<and> payload venv = Some os \<longrightarrow>
      eigen_fetchValidatorData (Response venv) = Inr (processValidatorData os))"
  by (simp add: fetchRestakingData_request_def eigen_fetchRestakingData_def
      fetchValidatorData_request_def eigen_fetchValidatorData_def processRestakingData_valid)

theorem errors_entry_decides_failure_witness:
  "errors \<lparr> errors = Some [''boom''], payload = (None :: deposit list option) \<rparr> = Some [''boom'']
   \<and> eigen_fetchRestakingData 7 (Response \<lparr> errors = Some [''boom''], payload = None \<rparr>)
       = Inr (getMockRestakingData 7)
   \<and> eigen_fetchValidatorData (Response \<lparr> errors = Some [''boom''], payload = None \<rparr>)
       = Inr getMockValidatorData
   \<and> list_all valid_deposit
        [\<lparr> d_staker = Some ''0xa'', d_strategy = Some ''0xb'', d_amount = Some 5,
           d_blockNumber = Some 1, d_blockTimestamp = Some 1700000000,
           d_transactionHash = Some ''0xc'' \<rparr>]
   \<and> eigen_fetchRestakingData 7
        (Response \<lparr> errors = None, payload = Some
          [\<lparr> d_staker = Some ''0xa'', d_strategy = Some ''0xb'', d_amount = Some 5,
             d_blockNumber = Some 1, d_blockTimestamp = Some 1700000000,
             d_transactionHash = Some ''0xc'' \<rparr>] \<rparr>)
       = Inr [\<lparr> userAddress = Some ''0xa'', amountRestaked = Some 5,
               targetAVSValidatorAddress = Some ''0xb'', strategy = Some ''0xb'',
               blockNumber = Some 1, transactionHash = Some ''0xc'',
               timestamp = 1700000000000 \<rparr>]
   \<and> eigen_fetchValidatorData
        (Response \<lparr> errors = None, payload = Some
          [\<lparr> o_id = Some ''op'', o_operator = Some ''0xd'', o_totalShares = None,
             o_metadataURI = None \<rparr>] \<rparr>)
       = Inr [\<lparr> operatorAddress = Some ''0xd'', operatorId = Some ''op'',
               totalDelegatedStake = Some 0, validatorStatus = Some ''active'',
               metadataURI = None \<rparr>]"
  using errors_entry_decides_failure
    [of "\<lparr> errors = Some [''boom''], payload = None \<rparr>" "[''boom'']" 7
        "\<lparr> errors = Some [''boom''], payload = None \<rparr>"]
    errors_entry_decides_failure
    [of "\<lparr> errors = None, payload = Some
          [\<lparr> d_staker = Some ''0xa'', d_strategy = Some ''0xb'', d_amount = Some 5,
             d_blockNumber = Some 1, d_blockTimestamp = Some 1700000000,
             d_transactionHash = Some ''0xc'' \<rparr>] \<rparr>" "[]" 7
        "\<lparr> errors = None, payload = Some
          [\<lparr> o_id = Some ''op'', o_operator = Some ''0xd'', o_totalShares = None,
             o_metadataURI = None \<rparr>] \<rparr>"
        "[\<lparr> d_staker = Some ''0xa'', d_strategy = Some ''0xb'', d_amount = Some 5,
           d_blockNumber = Some 1, d_blockTimestamp = Some 1700000000,
           d_transactionHash = Some ''0xc'' \<rparr>]"
        "[\<lparr> o_id = Some ''op'', o_operator = Some ''0xd'', o_totalShares = None,
           o_metadataURI = None \<rparr>]"]
  by (simp add: valid_deposit_def normalise_deposit_def processValidatorData_def
      processOperator_def)

text \<open>
  C7, as stated: on a failure the restaking call returns a fixed fallback dataset.
  \<open>getMockRestakingData\<close> stamps its two samples with \<^verbatim>\<open>new Date()\<close> and
  \<^verbatim>\<open>Date.now() - 3600000\<close>: the same failure answered one millisecond later gives
  another dataset.
\<close>

theorem adapter_fallback_depends_on_clock:
  "isl (fetchRestakingData_request (Transport_failure ''timeout of 30000ms exceeded''))
   \<and> eigen_fetchRestakingData 0 (Transport_failure ''timeout of 30000ms exceeded'')
       \<noteq> eigen_fetchRestakingData 1 (Transport_failure ''timeout of 30000ms exceeded'')"
  by (simp add: fetchRestakingData_request_def eigen_fetchRestakingData_def
      getMockRestakingData_def)

text \<open>
  C7, amended: whenever the request of an adapter call fails (rejected transport,
  errors entry, missing or malformed payload), the call itself does not throw.  The
  restaking call returns two sample restakers that are fixed in every field except
  \<^verbatim>\<open>timestamp\<close>, which holds the time of the call for the first sample and one hour
  before it for the second; the validator call returns two fixed sample validators.
  Both collections are non-empty and carry the fields the store requires.
\<close>

theorem adapter_failure_gives_fallback:
  "(isl (fetchRestakingData_request resp) \<longrightarrow>
      (\<exists>rs. eigen_fetchRestakingData now resp = Inr rs
         \<and> length rs = 2
         \<and> map forget_timestamp rs = map forget_timestamp (getMockRestakingData 0)
         \<and> map timestamp rs = [now, now - 3600000]
         \<and> list_all well_formed_restaker rs))
   \<and> (isl (fetchValidatorData_request vresp) \<longrightarrow>
      eigen_fetchValidatorData vresp = Inr getMockValidatorData
      \<and> length getMockValidatorData = 2
      \<and> list_all well_formed_validator getMockValidatorData)
   \<and> \<not> isl (eigen_fetchRestakingData now resp) \<and> \<not> isl (eigen_fetchValidatorData vresp)"
  by (auto simp: eigen_fetchRestakingData_def eigen_fetchValidatorData_def
      getMockRestakingData_def getMockValidatorData_def forget_timestamp_def
      well_formed_restaker_def well_formed_validator_def split: sum.splits)

theorem adapter_failure_gives_fallback_witness:
  "isl (fetchRestakingData_request (Transport_failure ''timeout of 30000ms exceeded''))
   \<and> isl (fetchValidatorData_request (Transport_failure ''timeout of 30000ms exceeded''))
   \<and> (\<exists>rs. eigen_fetchRestakingData 1000 (Transport_failure ''timeout of 30000ms exceeded'')
          = Inr rs
        \<and> length rs = 2
        \<and> map forget_timestamp rs = map forget_timestamp (getMockRestakingData 0)
        \<and> map timestamp rs = [1000, - 3599000])
   \<and> eigen_fetchValidatorData (Transport_failure ''timeout of 30000ms exceeded'')
       = Inr getMockValidatorData"
  using adapter_failure_gives_fallback
    [of "Transport_failure ''timeout of 30000ms exceeded''" 1000
        "Transport_failure ''timeout of 30000ms exceeded''"]
  by (auto simp: fetchRestakingData_request_def fetchValidatorData_request_def)

section \<open>The reward simulator\<close>

subsection \<open>The doubles of two sample restakers\<close>

text \<open>
  The literals \<^verbatim>\<open>0.0001\<close> and \<^verbatim>\<open>0.001\<close>, and what the simulator computes for a stake
  of 100 units and for the stake of 32.5 units of the first sample restaker:
  \<^verbatim>\<open>100 * 0.0001\<close> is the double \<^verbatim>\<open>0.01\<close>, above the threshold, and parses to
  \<open>10^16\<close> wei; \<^verbatim>\<open>32.5 * 0.0001\<close> is the double that prints as
  \<^verbatim>\<open>0.0032500000000000003\<close>, above the threshold too, with 19 fractional digits.
\<close>

lemma rate_val: "to_double 1 10000 = (7378697629483821, - 66)"
  by (simp add: dbl_eval cong: let_weak_cong)

lemma thr_val: "to_double 1 1000 = (4611686018427388, - 62)"
  by (simp add: dbl_eval cong: let_weak_cong)

lemma staked_100: "to_double 100000000000000000000 (10 ^ 18) = (7036874417766400, - 46)"
  by (simp add: dbl_eval cong: let_weak_cong)

lemma reward_100: "dbl_mult (7036874417766400, - 46) (7378697629483821, - 66) = (5764607523034235, - 59)"
  by (simp add: dbl_eval cong: let_weak_cong)

lemma less_100: "dbl_less (4611686018427388, - 62) (5764607523034235, - 59)"
  by (simp add: dbl_eval cong: let_weak_cong)

lemma staked_325: "to_double 32500000000000000000 (10 ^ 18) = (4573968371548160, - 47)"
  by (simp add: dbl_eval cong: let_weak_cong)

lemma reward_325: "dbl_mult (4573968371548160, - 47) (7378697629483821, - 66) = (7493989779944506, - 61)"
  by (simp add: dbl_eval cong: let_weak_cong)

lemma less_325: "dbl_less (4611686018427388, - 62) (7493989779944506, - 61)"
  by (simp add: dbl_eval cong: let_weak_cong)

lemma number_to_decimal_100: "number_to_decimal (5764607523034235, - 59) = (1, - 2)"
  by (simp add: number_to_decimal_def dec_exponent_def shortest_digits_eval dbl_eval
      strip_zeros.simps cong: let_weak_cong)

lemma parse_100: "parseEther_number (5764607523034235, - 59) = Inr 10000000000000000"
  by (simp add: parseEther_number_def number_to_decimal_100 dbl_eval cong: let_weak_cong)

lemma number_to_decimal_325:
  "number_to_decimal (7493989779944506, - 61) = (32500000000000003, - 19)"
  by (simp add: number_to_decimal_def dec_exponent_def shortest_digits_eval dbl_eval
      strip_zeros.simps cong: let_weak_cong)

lemma parse_325:
  "parseEther_number (7493989779944506, - 61) = Inl (Error ''too many decimals for format'')"
  by (simp add: parseEther_number_def number_to_decimal_325 dbl_eval cong: let_weak_cong)

subsection \<open>The loops in closed form\<close>

lemma simulate_periods_skip:
  "\<not> dbl_less materiality (dbl_mult st dailyRewardRate) \<Longrightarrow>
   simulate_periods now rnd r st i acc = Inr acc"
  by (induction now rnd r st i acc rule: simulate_periods.induct)
     (subst simulate_periods.simps, simp)

lemma simulate_periods_throw:
  "dbl_less materiality (dbl_mult st dailyRewardRate) \<Longrightarrow>
   parseEther_number (dbl_mult st dailyRewardRate) = Inl e \<Longrightarrow> i < 30 \<Longrightarrow>
   simulate_periods now rnd r st i acc = Inl e"
  by (subst simulate_periods.simps) simp

lemma simulate_periods_emit:
  "dbl_less materiality (dbl_mult st dailyRewardRate) \<Longrightarrow>
   parseEther_number (dbl_mult st dailyRewardRate) = Inr wei \<Longrightarrow>
   simulate_periods now rnd r st i acc =
     Inr (fst acc @ map (\<lambda>j. derived_reward r wei now (rnd (snd acc + (j - i))) j) [i..<30],
          snd acc + (30 - i))"
proof (induction now rnd r st i acc rule: simulate_periods.induct)
  case (1 now rnd r st i acc)
  show ?case
  proof (cases "i < 30")
    case True
    have "Suc (snd acc) + (j - Suc i) = snd acc + (j - i)" if "Suc i \<le> j" for j
      using that by arith
    then have eq:
      "map (\<lambda>j. derived_reward r wei now (rnd (Suc (snd acc) + (j - Suc i))) j) [Suc i..<30]
       = map (\<lambda>j. derived_reward r wei now (rnd (snd acc + (j - i))) j) [Suc i..<30]"
      by (intro map_cong refl) simp
    from True have upt: "[i..<30] = i # [Suc i..<30]"
      by (simp add: upt_conv_Cons)
    from True 1 show ?thesis
      by (subst simulate_periods.simps) (simp add: eq upt Suc_diff_Suc)
  next
    case False
    then show ?thesis
      by (subst simulate_periods.simps) simp
  qed
qed

lemma simulate_periods_forget:
  assumes "map forget_hash (fst a1) = map forget_hash (fst a2)"
  shows "map_sum id (\<lambda>acc. map forget_hash (fst acc)) (simulate_periods now rnd1 r st 0 a1)
       = map_sum id (\<lambda>acc. map forget_hash (fst acc)) (simulate_periods now rnd2 r st 0 a2)"
proof (cases "dbl_less materiality (dbl_mult st dailyRewardRate)")
  case False
  then show ?thesis using assms by (simp add: simulate_periods_skip)
next
  case True
  show ?thesis
  proof (cases "parseEther_number (dbl_mult st dailyRewardRate)")
    case (Inl e)
    with True show ?thesis by (simp add: simulate_periods_throw)
  next
    case (Inr wei)
    with True assms show ?thesis
      by (simp add: simulate_periods_emit forget_hash_def derived_reward_def)
  qed
qed

lemma simulate_restakers_forget:
  "map forget_hash (fst a1) = map forget_hash (fst a2) \<Longrightarrow>
   map_sum id (\<lambda>acc. map forget_hash (fst acc)) (simulate_restakers now rnd1 rs a1)
   = map_sum id (\<lambda>acc. map forget_hash (fst acc)) (simulate_restakers now rnd2 rs a2)"
proof (induction rs arbitrary: a1 a2)
  case Nil
  then show ?case by simp
next
  case (Cons r rs)
  show ?case
  proof (cases "amountRestaked r")
    case None
    then show ?thesis by simp
  next
    case (Some wei)
    from simulate_periods_forget [OF Cons.prems, of now rnd1 r "parseFloat_formatEther wei" rnd2]
    show ?thesis
      using Some Cons.IH
      by (cases "simulate_periods now rnd1 r (parseFloat_formatEther wei) 0 a1";
          cases "simulate_periods now rnd2 r (parseFloat_formatEther wei) 0 a2") auto
  qed
qed

lemma material_100:
  "dbl_less materiality (dbl_mult (parseFloat_formatEther 100000000000000000000) dailyRewardRate)"
  by (simp only: materiality_def dailyRewardRate_def parseFloat_formatEther_def
      rate_val thr_val staked_100 reward_100 less_100)

lemma reward_wei_100:
  "parseEther_number (dbl_mult (parseFloat_formatEther 100000000000000000000) dailyRewardRate)
   = Inr 10000000000000000"
  by (simp only: dailyRewardRate_def parseFloat_formatEther_def rate_val staked_100 reward_100
      parse_100)

lemma simulateRewards_100:
  "amountRestaked r = Some 100000000000000000000 \<Longrightarrow>
   simulateRewards now rnd [r]
   = Inr (map (\<lambda>j. derived_reward r 10000000000000000 now (rnd j) j) [0..<30])"
  by (simp add: simulateRewards_def simulate_periods_emit [OF material_100 reward_wei_100])

lemma material_325:
  "dbl_less materiality (dbl_mult (parseFloat_formatEther 32500000000000000000) dailyRewardRate)"
  by (simp only: materiality_def dailyRewardRate_def parseFloat_formatEther_def
      rate_val thr_val staked_325 reward_325 less_325)

lemma reward_wei_325:
  "parseEther_number (dbl_mult (parseFloat_formatEther 32500000000000000000) dailyRewardRate)
   = Inl (Error ''too many decimals for format'')"
  by (simp only: dailyRewardRate_def parseFloat_formatEther_def rate_val staked_325 reward_325
      parse_325)

lemma simulateRewards_100_units:
  assumes "amountRestaked r = Some 100000000000000000000"
  shows "\<exists>rewards. simulateRewards now rnd [r] = Inr rewards \<and> length rewards = 30
     \<and> (\<forall>rw \<in> set rewards.
          validatorAddress rw = targetAVSValidatorAddress r
          \<and> rewardAmount rw = Some 10000000000000000)
     \<and> rw_timestamp (last rewards) = now - 29 * oneDay"
proof -
  have "last (map (\<lambda>j. derived_reward r 10000000000000000 now (rnd j) j) [0..<30])
      = derived_reward r 10000000000000000 now (rnd 29) 29"
    by (simp add: last_map)
  then show ?thesis
    using assms by (auto simp: simulateRewards_100 derived_reward_def)
qed

subsection \<open>Claims about the simulator\<close>

text \<open>
  C4, as stated: two runs of \<open>simulateRewards\<close> on the same restakers at the same
  clock return the same batch, transaction identifier included.  The identifier is
  made from \<^verbatim>\<open>Math.random()\<close>: two runs that draw different random numbers return
  different batches.
\<close>

theorem simulateRewards_depends_on_random:
  "simulateRewards 0 (always ''1a'')
     [\<lparr> userAddress = Some ''0x9a'', amountRestaked = Some 100000000000000000000,
        targetAVSValidatorAddress = Some ''0x85'', strategy = Some ''0x93'',
        blockNumber = Some 18500100, transactionHash = Some ''0x456'', timestamp = 0 \<rparr>]
   \<noteq> simulateRewards 0 (always ''2b'')
     [\<lparr> userAddress = Some ''0x9a'', amountRestaked = Some 100000000000000000000,
        targetAVSValidatorAddress = Some ''0x85'', strategy = Some ''0x93'',
        blockNumber = Some 18500100, transactionHash = Some ''0x456'', timestamp = 0 \<rparr>]"
  by (simp add: simulateRewards_100 upt_conv_Cons derived_reward_def always_def)

text \<open>
  C4, amended: two runs on the same restakers at the same clock, whatever random
  numbers they draw, either throw the same error or return batches of the same
  length that agree in every field of every record except the transaction
  identifier.
\<close>

theorem simulateRewards_equal_up_to_hash:
  "map_sum id (map forget_hash) (simulateRewards now rnd1 rs)
   = map_sum id (map forget_hash) (simulateRewards now rnd2 rs)"
  using simulate_restakers_forget [of "([], 0)" "([], 0)" now rnd1 rs rnd2]
  by (auto simp: simulateRewards_def split: sum.splits)

theorem simulateRewards_equal_up_to_hash_witness:
  "map_sum id (map forget_hash)
     (simulateRewards 1700000000000 (always ''1a'')
        [\<lparr> userAddress = Some ''0x9a'', amountRestaked = Some 100000000000000000000,
           targetAVSValidatorAddress = Some ''0x85'', strategy = Some ''0x93'',
           blockNumber = Some 18500100, transactionHash = Some ''0x456'', timestamp = 0 \<rparr>])
   = map_sum id (map forget_hash)
     (simulateRewards 1700000000000 (always ''2b'')
        [\<lparr> userAddress = Some ''0x9a'', amountRestaked = Some 100000000000000000000,
           targetAVSValidatorAddress = Some ''0x85'', strategy = Some ''0x93'',
           blockNumber = Some 18500100, transactionHash = Some ''0x456'', timestamp = 0 \<rparr>])"
  using simulateRewards_equal_up_to_hash
    [of 1700000000000 "always ''1a''"
        "[\<lparr> userAddress = Some ''0x9a'', amountRestaked = Some 100000000000000000000,
           targetAVSValidatorAddress = Some ''0x85'', strategy = Some ''0x93'',
           blockNumber = Some 18500100, transactionHash = Some ''0x456'', timestamp = 0 \<rparr>]"
        "always ''2b''"]
  by simp

text \<open>
  C5: every restaker is taken through 30 periods, and a restaker of 100 units yields
  30 rewards (\<open>simulateRewards_100_units\<close>).  On a collection that starts with the
  first sample restaker of \<open>getMockRestakingData\<close>, 32.5 units, the code does not
  get through the first period: the derived reward \<^verbatim>\<open>0.0032500000000000003\<close> is
  above the threshold, \<^verbatim>\<open>ethers.parseEther\<close> rejects its 19 fractional digits, and
  \<open>simulateRewards\<close> throws.
\<close>

theorem simulateRewards_sample_throws:
  "simulateRewards now rnd
     (\<lparr> userAddress = Some ''0x742f6b5d9d4bb4e9d8a0e6a8b4e5d2a1f8c3e9d7'',
         amountRestaked = Some 32500000000000000000,
         targetAVSValidatorAddress = Some ''0x858646372CC42E1A627fcE94aa7A7033e7CF075A'',
         strategy = Some ''0x93c4b944D05dfe6df7645A86cd2206016c51564D'',
         blockNumber = Some 18500000,
         transactionHash = Some ''0x123...abc'',
         timestamp = now \<rparr> # rs)
   = Inl (Error ''too many decimals for format'')"
  by (simp add: simulateRewards_def simulate_periods_throw [OF material_325 reward_wei_325])

theorem simulateRewards_sample_throws_witness:
  "simulateRewards 1700000000000 (always ''1a'') (getMockRestakingData 1700000000000)
   = Inl (Error ''too many decimals for format'')
   \<and> eigen_fetchRewardsData 1700000000000 (always ''1a'') (Transport_failure ''timeout'') = Inr []"
  using simulateRewards_sample_throws [of 1700000000000 "always ''1a''"]
  by (simp add: getMockRestakingData_def eigen_fetchRewardsData_def eigen_fetchRestakingData_def
      fetchRestakingData_request_def)

section \<open>The store\<close>

subsection \<open>Totals of rewards\<close>

lemma cast_real_zero_iff: "v < 2 ^ 53 \<Longrightarrow> fst (cast_real v) = 0 \<longleftrightarrow> v = 0"
  using to_double_scaled [of v 0]
  by (cases "v = 0") (simp_all add: cast_real_def to_double_def)

lemma total_or_zero_exact:
  assumes "sum_list amounts < 2 ^ 53"
  shows "total_is (total_or_zero amounts) (sum_list amounts)"
proof (cases "amounts = []")
  case True
  then show ?thesis by (simp add: total_or_zero_def total_is_def)
next
  case False
  from assms have s: "sql_sum_real amounts = cast_real (sum_list amounts)"
    by (rule sql_sum_real_exact)
  show ?thesis
  proof (cases "sum_list amounts = 0")
    case True
    with s assms show ?thesis
      by (simp add: total_or_zero_def total_is_def cast_real_zero_iff)
  next
    case nz: False
    with s assms False show ?thesis
      by (simp add: total_or_zero_def total_is_def cast_real_zero_iff dbl_val_exact)
  qed
qed

lemma breakdown_exact:
  assumes "exact_total a db < 2 ^ 53"
    and "b \<in> set (breakdownPerValidator (getRewardsByAddress a db))"
  shows "dbl_val (totalRewards b) = of_nat (exact_validator_total a (bd_validatorAddress b) db)"
proof -
  from assms(2) obtain v where
    b: "b = group_breakdown v (filter (\<lambda>row. rwr_validatorAddress row = v) (rewards_of a db))"
    by (auto simp: getRewardsByAddress_def)
  have "exact_validator_total a v db \<le> exact_total a db"
    unfolding exact_validator_total_def exact_total_def by (rule sum_list_filter_le_nat)
  with assms(1) have "exact_validator_total a v db < 2 ^ 53" by simp
  then have "dbl_val (sql_sum_real (map rwr_rewardAmount
       (filter (\<lambda>row. rwr_validatorAddress row = v) (rewards_of a db))))
     = of_nat (exact_validator_total a v db)"
    unfolding exact_validator_total_def by (simp add: sql_sum_real_exact dbl_val_exact)
  then show ?thesis by (simp add: b group_breakdown_def)
qed

text \<open>
  C3, as stated: the total that \<open>getRewardsByAddress\<close> returns is the exact integer
  sum of the stored amounts.  The query sums doubles.  With two rewards of \<open>2^53\<close> wei
  and of 1 wei (about 0.009 units together), the total returned is \<open>2^53\<close>, one wei
  short of the sum; the total of the one validator is the same double.
\<close>

theorem rewards_total_rounds:
  "totalRestakingRewardsReceived (getRewardsByAddress ''0xa''
      (store_with_rewards [(''0xa'', ''0xv'', 9007199254740992), (''0xa'', ''0xv'', 1)]))
     = JNumber (4503599627370496, 1)
   \<and> dbl_val (4503599627370496, 1) = 9007199254740992
   \<and> exact_total ''0xa''
        (store_with_rewards [(''0xa'', ''0xv'', 9007199254740992), (''0xa'', ''0xv'', 1)])
      = 9007199254740993
   \<and> \<not> total_is
        (totalRestakingRewardsReceived (getRewardsByAddress ''0xa''
          (store_with_rewards [(''0xa'', ''0xv'', 9007199254740992), (''0xa'', ''0xv'', 1)])))
        (exact_total ''0xa''
          (store_with_rewards [(''0xa'', ''0xv'', 9007199254740992), (''0xa'', ''0xv'', 1)]))"
proof -
  have s: "sql_sum_real [9007199254740992, 1] = (4503599627370496, 1)"
    by (simp add: sql_sum_real_def cast_real_def dbl_add_def dbl_eval cong: let_weak_cong)
  then have s': "sql_sum_real [9007199254740992, Suc 0] = (4503599627370496, 1)"
    by simp
  have v: "dbl_val (4503599627370496, 1) = 9007199254740992"
    by (simp add: dbl_val_def dbl_num_def dbl_den_def)
  show ?thesis
    by (simp add: getRewardsByAddress_def rewards_of_def store_with_rewards_def empty_store_def
        sample_reward_row_def total_or_zero_def s' v total_is_def exact_total_def)
qed

text \<open>
  C3, amended: the total and the per-validator totals are sums of doubles
  (\<^verbatim>\<open>CAST(rewardAmount as REAL)\<close>); they equal the exact integer sums of the stored
  amounts whenever the exact total of the address is below \<open>2^53\<close> wei.
\<close>

theorem rewards_total_exact_below_2_53:
  "exact_total a db < 2 ^ 53 \<longrightarrow>
     total_is (totalRestakingRewardsReceived (getRewardsByAddress a db)) (exact_total a db)
     \<and> (\<forall>b \<in> set (breakdownPerValidator (getRewardsByAddress a db)).
          dbl_val (totalRewards b) = of_nat (exact_validator_total a (bd_validatorAddress b) db))"
  using total_or_zero_exact [of "map rwr_rewardAmount (rewards_of a db)"] breakdown_exact [of a db]
  by (auto simp: exact_total_def getRewardsByAddress_def)

theorem rewards_total_exact_below_2_53_witness:
  "exact_total ''0xa''
     (store_with_rewards [(''0xa'', ''0xv'', 5000), (''0xb'', ''0xv'', 7), (''0xa'', ''0xw'', 12)])
     < 2 ^ 53
   \<and> total_is (totalRestakingRewardsReceived (getRewardsByAddress ''0xa''
        (store_with_rewards [(''0xa'', ''0xv'', 5000), (''0xb'', ''0xv'', 7), (''0xa'', ''0xw'', 12)])))
        5012"
  using rewards_total_exact_below_2_53
    [of "''0xa''"
        "store_with_rewards [(''0xa'', ''0xv'', 5000), (''0xb'', ''0xv'', 7), (''0xa'', ''0xw'', 12)]"]
  by (simp add: exact_total_def rewards_of_def store_with_rewards_def empty_store_def
      sample_reward_row_def)

subsection \<open>The insert loops\<close>

lemma length_write_outcomes: "length (write_outcomes ins xs db) = length xs"
  by (induction xs arbitrary: db) (auto split: sum.splits)

lemma insert_all_dedup_outcomes:
  "\<exists>db'. insert_all_dedup ins xs (n, e, db) =
     (n + length (filter succeeded (write_outcomes ins xs db)),
      e + length (filter counted_error (write_outcomes ins xs db)), db')"
proof (induction xs arbitrary: n e db)
  case Nil
  then show ?case by simp
next
  case (Cons x xs)
  show ?case
  proof (cases "ins x db")
    case (Inl err)
    with Cons.IH [of n "Suc e" db] Cons.IH [of n e db] show ?thesis
      by (auto simp: succeeded_def counted_error_def)
  next
    case (Inr p)
    obtain i db1 where p: "p = (i, db1)" by (cases p)
    with Inr Cons.IH [of "Suc n" e db1] show ?thesis
      by (auto simp: succeeded_def counted_error_def)
  qed
qed

lemma insert_all_outcomes:
  "\<exists>db'. insert_all ins xs (n, e, db) =
     (n + length (filter succeeded (write_outcomes ins xs db)),
      e + length (filter failed (write_outcomes ins xs db)), db')"
proof (induction xs arbitrary: n e db)
  case Nil
  then show ?case by simp
next
  case (Cons x xs)
  show ?case
  proof (cases "ins x db")
    case (Inl err)
    with Cons.IH [of n "Suc e" db] show ?thesis
      by (auto simp: succeeded_def failed_def)
  next
    case (Inr p)
    obtain i db1 where p: "p = (i, db1)" by (cases p)
    with Inr Cons.IH [of "Suc n" e db1] show ?thesis
      by (auto simp: succeeded_def failed_def)
  qed
qed

lemma succeeded_or_failed:
  "length (filter succeeded outs) + length (filter failed outs) = length outs"
proof -
  have "filter failed outs = filter (\<lambda>x. \<not> succeeded x) outs"
    by (rule filter_cong) (simp_all add: failed_def succeeded_def)
  then show ?thesis
    by (simp only: sum_length_filter_compl)
qed

lemma insert_all_dedup_no_counted_error:
  assumes "list_all (\<lambda>outcome. \<not> counted_error outcome) (write_outcomes ins xs db)"
  shows "\<exists>db'. insert_all_dedup ins xs (0, 0, db) =
     (length (filter succeeded (write_outcomes ins xs db)), 0, db')"
proof -
  from assms have "filter counted_error (write_outcomes ins xs db) = []"
    by (simp add: filter_empty_conv list_all_iff)
  with insert_all_dedup_outcomes [of ins xs 0 0 db] show ?thesis by simp
qed

subsection \<open>Upserts of restakers\<close>

lemma insertRestaker_well_formed:
  "well_formed_restaker r \<Longrightarrow>
   insertRestaker r db = Inr (Suc (restakers_seq db), restaker_upserted r db)"
  by (auto simp: well_formed_restaker_def insertRestaker_def restaker_upserted_def
      restaker_row_for_def)

lemma insertRestaker_Inr_iff:
  "insertRestaker r db = Inr (i, db') \<longleftrightarrow>
   well_formed_restaker r \<and> i = Suc (restakers_seq db) \<and> db' = restaker_upserted r db"
  by (auto simp: well_formed_restaker_def insertRestaker_def restaker_upserted_def
      restaker_row_for_def split: option.splits)

lemma insertRestaker_not_well_formed:
  "\<not> well_formed_restaker r \<Longrightarrow>
   \<exists>e. insertRestaker r db = Inl e \<and> \<not> is_unique_violation e"
  by (auto simp: well_formed_restaker_def insertRestaker_def not_null_failed_def
      is_unique_violation_def message_def sublist_Cons_right split: option.splits)

lemma restaker_rows_of_upserted:
  "restaker_rows_of a (restaker_upserted r db) =
     (if a = the (userAddress r)
      then [restaker_row_for r (Suc (restakers_seq db)) (clock db)]
      else restaker_rows_of a db)"
  by (auto simp: restaker_rows_of_def restaker_upserted_def restaker_row_for_def
      intro: filter_cong)

lemma length_restakers_upserted:
  "length (restakers (restaker_upserted r db))
     + length (restaker_rows_of (the (userAddress r)) db)
   = Suc (length (restakers db))"
proof -
  have "length (filter (\<lambda>row. rr_userAddress row = the (userAddress r)) (restakers db))
      + length (filter (\<lambda>row. rr_userAddress row \<noteq> the (userAddress r)) (restakers db))
      = length (restakers db)"
    using sum_length_filter_compl [of "\<lambda>row. rr_userAddress row = the (userAddress r)" "restakers db"]
    by simp
  then show ?thesis
    by (simp add: restaker_upserted_def restaker_rows_of_def)
qed

lemma restaker_at_clock [simp]:
  "restakers (at_clock t db) = restakers db"
  "restakers_seq (at_clock t db) = restakers_seq db"
  "restaker_rows_of a (at_clock t db) = restaker_rows_of a db"
  "clock (at_clock t db) = t"
  by (simp_all add: at_clock_def restaker_rows_of_def)

lemma insert_all_dedup_restakers:
  "insert_all_dedup insertRestaker rs (n, e, db) =
     (n + length (filter well_formed_restaker rs),
      e + length (filter (\<lambda>r. \<not> well_formed_restaker r) rs),
      fold restaker_upserted (filter well_formed_restaker rs) db)"
proof (induction rs arbitrary: n e db)
  case Nil
  then show ?case by simp
next
  case (Cons r rs)
  show ?case
  proof (cases "well_formed_restaker r")
    case True
    then show ?thesis by (simp add: insertRestaker_well_formed Cons.IH)
  next
    case False
    from insertRestaker_not_well_formed [OF this, of db] obtain err where
      "insertRestaker r db = Inl err" "\<not> is_unique_violation err" by blast
    with False show ?thesis by (simp add: Cons.IH)
  qed
qed

lemma fold_restaker_upserted_other:
  "a \<notin> (\<lambda>r. the (userAddress r)) ` set rs \<Longrightarrow>
   restaker_rows_of a (fold restaker_upserted rs db) = restaker_rows_of a db"
  by (induction rs arbitrary: db) (auto simp: restaker_rows_of_upserted)

lemma fold_restaker_upserted_once:
  "a \<in> (\<lambda>r. the (userAddress r)) ` set rs \<Longrightarrow>
   length (restaker_rows_of a (fold restaker_upserted rs db)) = 1"
proof (induction rs arbitrary: db)
  case Nil
  then show ?case by simp
next
  case (Cons r rs)
  show ?case
  proof (cases "a \<in> (\<lambda>r. the (userAddress r)) ` set rs")
    case True
    then show ?thesis by (simp add: Cons.IH)
  next
    case False
    with Cons.prems have "a = the (userAddress r)" by auto
    with False show ?thesis
      by (simp add: fold_restaker_upserted_other restaker_rows_of_upserted)
  qed
qed

lemma fold_restaker_upserted_length:
  "\<forall>a \<in> (\<lambda>r. the (userAddress r)) ` set rs. length (restaker_rows_of a db) = 1 \<Longrightarrow>
   length (restakers (fold restaker_upserted rs db)) = length (restakers db)"
proof (induction rs arbitrary: db)
  case Nil
  then show ?case by simp
next
  case (Cons r rs)
  have one: "length (restaker_rows_of (the (userAddress r)) db) = 1"
    using Cons.prems by simp
  have len: "length (restakers (restaker_upserted r db)) = length (restakers db)"
    using length_restakers_upserted [of r db] one by simp
  have "\<forall>a \<in> (\<lambda>r. the (userAddress r)) ` set rs.
          length (restaker_rows_of a (restaker_upserted r db)) = 1"
    using Cons.prems by (auto simp: restaker_rows_of_upserted)
  from Cons.IH [OF this] len show ?case by simp
qed

lemma rerun_restakers:
  assumes "insert_all_dedup insertRestaker rs (0, 0, db) = (n, 0, db1)"
  shows "\<exists>db2. insert_all_dedup insertRestaker rs (0, 0, at_clock t db1) = (n, 0, db2)
     \<and> n = length rs \<and> length (restakers db2) = length (restakers db1)"
proof -
  from assms have none: "filter (\<lambda>r. \<not> well_formed_restaker r) rs = []"
    and n: "n = length (filter well_formed_restaker rs)"
    and db1: "db1 = fold restaker_upserted (filter well_formed_restaker rs) db"
    by (simp_all add: insert_all_dedup_restakers)
  from none have all: "filter well_formed_restaker rs = rs"
    by (simp add: filter_empty_conv filter_id_conv)
  have once: "\<forall>a \<in> (\<lambda>r. the (userAddress r)) ` set rs.
      length (restaker_rows_of a (at_clock t db1)) = 1"
    using fold_restaker_upserted_once [of _ rs db] by (auto simp: db1 all)
  show ?thesis
    using fold_restaker_upserted_length [OF once] none n all
    by (simp add: insert_all_dedup_restakers)
qed

lemma reinsert_restaker:
  assumes "insertRestaker r db = Inr (i, db1)"
  shows "\<exists>j db2. insertRestaker r (at_clock t db1) = Inr (j, db2)
     \<and> length (restaker_rows_of (the (userAddress r)) db2) = 1
     \<and> length (restakers db2) = length (restakers db1)"
proof -
  from assms have wf: "well_formed_restaker r" and db1: "db1 = restaker_upserted r db"
    by (simp_all add: insertRestaker_Inr_iff)
  have "length (restaker_rows_of (the (userAddress r)) (at_clock t db1)) = 1"
    by (simp add: db1 restaker_rows_of_upserted)
  with length_restakers_upserted [of r "at_clock t db1"]
  have "length (restakers (restaker_upserted r (at_clock t db1))) = length (restakers db1)"
    by simp
  with wf show ?thesis
    by (simp add: insertRestaker_well_formed restaker_rows_of_upserted)
qed

lemma replace_restaker:
  assumes "insertRestaker r1 db = Inr (i, db1)"
    and "userAddress r2 = userAddress r1" "amountRestaked r2 \<noteq> None"
  shows "\<exists>j db2. insertRestaker r2 (at_clock t db1) = Inr (j, db2) \<and> i < j
     \<and> restaker_rows_of (the (userAddress r1)) db1 = [restaker_row_for r1 i (clock db)]
     \<and> restaker_rows_of (the (userAddress r1)) db2 = [restaker_row_for r2 j t]"
proof -
  from assms(1) have wf1: "well_formed_restaker r1" and i: "i = Suc (restakers_seq db)"
    and db1: "db1 = restaker_upserted r1 db"
    by (simp_all add: insertRestaker_Inr_iff)
  from wf1 assms(2,3) have wf2: "well_formed_restaker r2"
    by (simp add: well_formed_restaker_def)
  have seq: "restakers_seq db1 = i"
    by (simp add: db1 i restaker_upserted_def)
  from wf2 show ?thesis
    using assms(2) seq
    by (simp add: insertRestaker_well_formed restaker_rows_of_upserted db1 i)
qed

subsection \<open>Upserts of validators\<close>

lemma insertValidator_well_formed:
  "well_formed_validator r \<Longrightarrow>
   insertValidator r db = Inr (Suc (validators_seq db), validator_upserted r db)"
  by (auto simp: well_formed_validator_def insertValidator_def validator_upserted_def
      validator_row_for_def)

lemma insertValidator_Inr_iff:
  "insertValidator r db = Inr (i, db') \<longleftrightarrow>
   well_formed_validator r \<and> i = Suc (validators_seq db) \<and> db' = validator_upserted r db"
  by (auto simp: well_formed_validator_def insertValidator_def validator_upserted_def
      validator_row_for_def split: option.splits)

lemma insertValidator_not_well_formed:
  "\<not> well_formed_validator r \<Longrightarrow>
   \<exists>e. insertValidator r db = Inl e \<and> \<not> is_unique_violation e"
  by (auto simp: well_formed_validator_def insertValidator_def not_null_failed_def
      is_unique_violation_def message_def sublist_Cons_right split: option.splits)

lemma validator_rows_of_upserted:
  "validator_rows_of a (validator_upserted r db) =
     (if a = the (operatorAddress r)
      then [validator_row_for r (Suc (validators_seq db)) (clock db)]
      else validator_rows_of a db)"
  by (auto simp: validator_rows_of_def validator_upserted_def validator_row_for_def
      intro: filter_cong)

lemma length_validators_upserted:
  "length (validators (validator_upserted r db))
     + length (validator_rows_of (the (operatorAddress r)) db)
   = Suc (length (validators db))"
proof -
  have "length (filter (\<lambda>row. vr_operatorAddress row = the (operatorAddress r)) (validators db))
      + length (filter (\<lambda>row. vr_operatorAddress row \<noteq> the (operatorAddress r)) (validators db))
      = length (validators db)"
    using sum_length_filter_compl [of "\<lambda>row. vr_operatorAddress row = the (operatorAddress r)" "validators db"]
    by simp
  then show ?thesis
    by (simp add: validator_upserted_def validator_rows_of_def)
qed

lemma validator_at_clock [simp]:
  "validators (at_clock t db) = validators db"
  "validators_seq (at_clock t db) = validators_seq db"
  "validator_rows_of a (at_clock t db) = validator_rows_of a db"
  by (simp_all add: at_clock_def validator_rows_of_def)

lemma insert_all_dedup_validators:
  "insert_all_dedup insertValidator rs (n, e, db) =
     (n + length (filter well_formed_validator rs),
      e + length (filter (\<lambda>r. \<not> well_formed_validator r) rs),
      fold validator_upserted (filter well_formed_validator rs) db)"
proof (induction rs arbitrary: n e db)
  case Nil
  then show ?case by simp
next
  case (Cons r rs)
  show ?case
  proof (cases "well_formed_validator r")
    case True
    then show ?thesis by (simp add: insertValidator_well_formed Cons.IH)
  next
    case False
    from insertValidator_not_well_formed [OF this, of db] obtain err where
      "insertValidator r db = Inl err" "\<not> is_unique_violation err" by blast
    with False show ?thesis by (simp add: Cons.IH)
  qed
qed

lemma fold_validator_upserted_other:
  "a \<notin> (\<lambda>r. the (operatorAddress r)) ` set rs \<Longrightarrow>
   validator_rows_of a (fold validator_upserted rs db) = validator_rows_of a db"
  by (induction rs arbitrary: db) (auto simp: validator_rows_of_upserted)

lemma fold_validator_upserted_once:
  "a \<in> (\<lambda>r. the (operatorAddress r)) ` set rs \<Longrightarrow>
   length (validator_rows_of a (fold validator_upserted rs db)) = 1"
proof (induction rs arbitrary: db)
  case Nil
  then show ?case by simp
next
  case (Cons r rs)
  show ?case
  proof (cases "a \<in> (\<lambda>r. the (operatorAddress r)) ` set rs")
    case True
    then show ?thesis by (simp add: Cons.IH)
  next
    case False
    with Cons.prems have "a = the (operatorAddress r)" by auto
    with False show ?thesis
      by (simp add: fold_validator_upserted_other validator_rows_of_upserted)
  qed
qed

lemma fold_validator_upserted_length:
  "\<forall>a \<in> (\<lambda>r. the (operatorAddress r)) ` set rs. length (validator_rows_of a db) = 1 \<Longrightarrow>
   length (validators (fold validator_upserted rs db)) = length (validators db)"
proof (induction rs arbitrary: db)
  case Nil
  then show ?case by simp
next
  case (Cons r rs)
  have one: "length (validator_rows_of (the (operatorAddress r)) db) = 1"
    using Cons.prems by simp
  have len: "length (validators (validator_upserted r db)) = length (validators db)"
    using length_validators_upserted [of r db] one by simp
  have "\<forall>a \<in> (\<lambda>r. the (operatorAddress r)) ` set rs.
          length (validator_rows_of a (validator_upserted r db)) = 1"
    using Cons.prems by (auto simp: validator_rows_of_upserted)
  from Cons.IH [OF this] len show ?case by simp
qed

lemma rerun_validators:
  assumes "insert_all_dedup insertValidator rs (0, 0, db) = (n, 0, db1)"
  shows "\<exists>db2. insert_all_dedup insertValidator rs (0, 0, at_clock t db1) = (n, 0, db2)
     \<and> n = length rs \<and> length (validators db2) = length (validators db1)"
proof -
  from assms have none: "filter (\<lambda>r. \<not> well_formed_validator r) rs = []"
    and n: "n = length (filter well_formed_validator rs)"
    and db1: "db1 = fold validator_upserted (filter well_formed_validator rs) db"
    by (simp_all add: insert_all_dedup_validators)
  from none have all: "filter well_formed_validator rs = rs"
    by (simp add: filter_empty_conv filter_id_conv)
  have once: "\<forall>a \<in> (\<lambda>r. the (operatorAddress r)) ` set rs.
      length (validator_rows_of a (at_clock t db1)) = 1"
    using fold_validator_upserted_once [of _ rs db] by (auto simp: db1 all)
  show ?thesis
    using fold_validator_upserted_length [OF once] none n all
    by (simp add: insert_all_dedup_validators)
qed

lemma reinsert_validator:
  assumes "insertValidator r db = Inr (i, db1)"
  shows "\<exists>j db2. insertValidator r (at_clock t db1) = Inr (j, db2)
     \<and> length (validator_rows_of (the (operatorAddress r)) db2) = 1
     \<and> length (validators db2) = length (validators db1)"
proof -
  from assms have wf: "well_formed_validator r" and db1: "db1 = validator_upserted r db"
    by (simp_all add: insertValidator_Inr_iff)
  have "length (validator_rows_of (the (operatorAddress r)) (at_clock t db1)) = 1"
    by (simp add: db1 validator_rows_of_upserted)
  with length_validators_upserted [of r "at_clock t db1"]
  have "length (validators (validator_upserted r (at_clock t db1))) = length (validators db1)"
    by simp
  with wf show ?thesis
    by (simp add: insertValidator_well_formed validator_rows_of_upserted)
qed

lemma replace_validator:
  assumes "insertValidator r1 db = Inr (i, db1)"
    and "operatorAddress r2 = operatorAddress r1"
  shows "\<exists>j db2. insertValidator r2 (at_clock t db1) = Inr (j, db2) \<and> i < j
     \<and> validator_rows_of (the (operatorAddress r1)) db1 = [validator_row_for r1 i (clock db)]
     \<and> validator_rows_of (the (operatorAddress r1)) db2 = [validator_row_for r2 j t]"
proof -
  from assms(1) have wf1: "well_formed_validator r1" and i: "i = Suc (validators_seq db)"
    and db1: "db1 = validator_upserted r1 db"
    by (simp_all add: insertValidator_Inr_iff)
  from wf1 assms(2) have wf2: "well_formed_validator r2"
    by (simp add: well_formed_validator_def)
  have seq: "validators_seq db1 = i"
    by (simp add: db1 i validator_upserted_def)
  from wf2 show ?thesis
    using assms(2) seq
    by (simp add: insertValidator_well_formed validator_rows_of_upserted db1 i)
qed

subsection \<open>A batch that differs in time stamps only\<close>

lemma restaker_upserted_timestamp:
  "restaker_upserted \<circ> timestamp_update f = restaker_upserted"
  "well_formed_restaker \<circ> timestamp_update f = well_formed_restaker"
  "(\<lambda>r. \<not> well_formed_restaker r) \<circ> timestamp_update f = (\<lambda>r. \<not> well_formed_restaker r)"
  by (simp_all add: fun_eq_iff restaker_upserted_def restaker_row_for_def
      well_formed_restaker_def)

lemma insert_all_dedup_restakers_timestamp:
  "insert_all_dedup insertRestaker (map (timestamp_update f) rs) (n, e, db)
   = insert_all_dedup insertRestaker rs (n, e, db)"
  by (simp add: insert_all_dedup_restakers filter_map fold_map restaker_upserted_timestamp)

lemma eigen_fetchRestakingData_clock:
  "\<exists>rs rs'. eigen_fetchRestakingData now resp = Inr rs
     \<and> eigen_fetchRestakingData now' resp = Inr rs'
     \<and> map (timestamp_update (\<lambda>_. 0)) rs' = map (timestamp_update (\<lambda>_. 0)) rs"
  by (cases "fetchRestakingData_request resp")
     (simp_all add: eigen_fetchRestakingData_def getMockRestakingData_def)

lemma rerun_restaking_task:
  assumes "fetcher_fetchRestakingData now resp db = (Summary n 0, db1)"
  shows "\<exists>db2. fetcher_fetchRestakingData now' resp (at_clock t db1) = (Summary n 0, db2)
     \<and> length (restakers db2) = length (restakers db1)"
proof -
  from eigen_fetchRestakingData_clock [of now resp now'] obtain rs rs' where
    rs: "eigen_fetchRestakingData now resp = Inr rs" and
    rs': "eigen_fetchRestakingData now' resp = Inr rs'" and
    eq: "map (timestamp_update (\<lambda>_. 0)) rs' = map (timestamp_update (\<lambda>_. 0)) rs"
    by blast
  from assms rs have first: "insert_all_dedup insertRestaker rs (0, 0, db) = (n, 0, db1)"
    by (simp add: fetcher_fetchRestakingData_def split: prod.splits)
  from rerun_restakers [OF first, of t] obtain db2 where
    second: "insert_all_dedup insertRestaker rs (0, 0, at_clock t db1) = (n, 0, db2)" and
    len: "length (restakers db2) = length (restakers db1)"
    by blast
  have "insert_all_dedup insertRestaker rs' (0, 0, at_clock t db1)
      = insert_all_dedup insertRestaker (map (timestamp_update (\<lambda>_. 0)) rs') (0, 0, at_clock t db1)"
    by (simp only: insert_all_dedup_restakers_timestamp)
  also have "\<dots> = insert_all_dedup insertRestaker rs (0, 0, at_clock t db1)"
    by (simp only: eq insert_all_dedup_restakers_timestamp)
  finally have "insert_all_dedup insertRestaker rs' (0, 0, at_clock t db1) = (n, 0, db2)"
    using second by simp
  with rs' len show ?thesis
    by (simp add: fetcher_fetchRestakingData_def)
qed

lemma rerun_validator_task:
  assumes "fetcher_fetchValidatorData resp db = (Summary n 0, db1)"
  shows "\<exists>db2. fetcher_fetchValidatorData resp (at_clock t db1) = (Summary n 0, db2)
     \<and> length (validators db2) = length (validators db1)"
proof -
  obtain vs where vs: "eigen_fetchValidatorData resp = Inr vs"
    by (cases "fetchValidatorData_request resp") (simp_all add: eigen_fetchValidatorData_def)
  from assms vs have first: "insert_all_dedup insertValidator vs (0, 0, db) = (n, 0, db1)"
    by (simp add: fetcher_fetchValidatorData_def split: prod.splits)
  from rerun_validators [OF first, of t] vs show ?thesis
    by (auto simp: fetcher_fetchValidatorData_def)
qed

subsection \<open>Claims about upserts\<close>

text \<open>
  C8: a restaker or validator that has been inserted is inserted again, at any later
  time, without error; afterwards the store holds exactly one row with its address
  and as many rows as before.  When the restaking or the validator task of a cycle
  has returned without errors, the same task on the same upstream response, at any
  later time, returns the same counts, again without errors, and leaves the number
  of stored rows unchanged.  Whatever the writes of a batch do, as long as those that
  fail fail on a unique constraint, the loop over restakers or validators counts no
  error.
\<close>

theorem upsert_idempotent:
  "(insertRestaker r db = Inr (i, db1) \<longrightarrow>
      (\<exists>j db2. insertRestaker r (at_clock t db1) = Inr (j, db2)
         \<and> length (restaker_rows_of (the (userAddress r)) db2) = 1
         \<and> length (restakers db2) = length (restakers db1)))
   \<and> (insertValidator v db = Inr (i, dbv1) \<longrightarrow>
      (\<exists>j db2. insertValidator v (at_clock t dbv1) = Inr (j, db2)
         \<and> length (validator_rows_of (the (operatorAddress v)) db2) = 1
         \<and> length (validators db2) = length (validators dbv1)))
   \<and> (fetcher_fetchRestakingData now resp db = (Summary n 0, dbr) \<longrightarrow>
      (\<exists>db2. fetcher_fetchRestakingData now' resp (at_clock t dbr) = (Summary n 0, db2)
         \<and> length (restakers db2) = length (restakers dbr)))
   \<and> (fetcher_fetchValidatorData vresp db = (Summary m 0, dbo) \<longrightarrow>
      (\<exists>db2. fetcher_fetchValidatorData vresp (at_clock t dbo) = (Summary m 0, db2)
         \<and> length (validators db2) = length (validators dbo)))
   \<and> (list_all (\<lambda>outcome. \<not> counted_error outcome) (write_outcomes ins xs db) \<longrightarrow>
      (\<exists>db2. insert_all_dedup ins xs (0, 0, db) =
         (length (filter succeeded (write_outcomes ins xs db)), 0, db2)))"
  using reinsert_restaker [of r db i db1 t] reinsert_validator [of v db i dbv1 t]
    rerun_restaking_task [of now resp db n dbr now' t]
    rerun_validator_task [of vresp db m dbo t]
    insert_all_dedup_no_counted_error [of ins xs db]
  by blast

theorem upsert_idempotent_witness:
  "insertRestaker (hd (getMockRestakingData 0)) (empty_store 100)
     = Inr (1, restaker_upserted (hd (getMockRestakingData 0)) (empty_store 100))
   \<and> insertValidator (hd getMockValidatorData) (empty_store 100)
     = Inr (1, validator_upserted (hd getMockValidatorData) (empty_store 100))
   \<and> fetcher_fetchRestakingData 0 (Transport_failure ''timeout'') (empty_store 100)
     = (Summary 2 0, fold restaker_upserted (getMockRestakingData 0) (empty_store 100))
   \<and> fetcher_fetchValidatorData (Transport_failure ''timeout'') (empty_store 100)
     = (Summary 2 0, fold validator_upserted getMockValidatorData (empty_store 100))
   \<and> (\<exists>j db2. insertRestaker (hd (getMockRestakingData 0))
          (at_clock 200 (restaker_upserted (hd (getMockRestakingData 0)) (empty_store 100)))
          = Inr (j, db2)
        \<and> length (restaker_rows_of ''0x742f6b5d9d4bb4e9d8a0e6a8b4e5d2a1f8c3e9d7'' db2) = 1
        \<and> length (restakers db2) = 1)
   \<and> (\<exists>db2. fetcher_fetchRestakingData 5000 (Transport_failure ''timeout'')
          (at_clock 200 (fold restaker_upserted (getMockRestakingData 0) (empty_store 100)))
          = (Summary 2 0, db2)
        \<and> length (restakers db2) = 2)
   \<and> list_all (\<lambda>outcome. \<not> counted_error outcome)
        (write_outcomes duplicate_key [''0xa'', ''0xb''] (empty_store 100))
   \<and> (\<exists>db2. insert_all_dedup duplicate_key [''0xa'', ''0xb''] (0, 0, empty_store 100)
        = (0, 0, db2))"
proof -
  have dup: "write_outcomes duplicate_key [''0xa'', ''0xb''] (empty_store 100)
     = [Some (Error ''SQLITE_CONSTRAINT: UNIQUE constraint failed: restakers.userAddress''),
        Some (Error ''SQLITE_CONSTRAINT: UNIQUE constraint failed: restakers.userAddress'')]"
    by (simp add: duplicate_key_def)
  have unique: "is_unique_violation
     (Error ''SQLITE_CONSTRAINT: UNIQUE constraint failed: restakers.userAddress'')"
    by (simp add: is_unique_violation_def message_def sublist_Cons_right)
  then have f: "list_all (\<lambda>outcome. \<not> counted_error outcome)
        (write_outcomes duplicate_key [''0xa'', ''0xb''] (empty_store 100))"
    "filter succeeded (write_outcomes duplicate_key [''0xa'', ''0xb''] (empty_store 100)) = []"
    unfolding dup by (simp_all add: counted_error_def succeeded_def)
  have wf: "well_formed_restaker (hd (getMockRestakingData 0))"
    "list_all well_formed_restaker (getMockRestakingData 0)"
    "well_formed_validator (hd getMockValidatorData)"
    "list_all well_formed_validator getMockValidatorData"
    by (simp_all add: getMockRestakingData_def getMockValidatorData_def
        well_formed_restaker_def well_formed_validator_def)
  have a: "insertRestaker (hd (getMockRestakingData 0)) (empty_store 100)
     = Inr (1, restaker_upserted (hd (getMockRestakingData 0)) (empty_store 100))"
    by (simp add: insertRestaker_well_formed wf empty_store_def)
  have b: "insertValidator (hd getMockValidatorData) (empty_store 100)
     = Inr (1, validator_upserted (hd getMockValidatorData) (empty_store 100))"
    by (simp add: insertValidator_well_formed wf empty_store_def)
  have all:
    "filter well_formed_restaker (getMockRestakingData 0) = getMockRestakingData 0"
    "filter (\<lambda>r. \<not> well_formed_restaker r) (getMockRestakingData 0) = []"
    "length (getMockRestakingData 0) = 2"
    "filter well_formed_validator getMockValidatorData = getMockValidatorData"
    "filter (\<lambda>r. \<not> well_formed_validator r) getMockValidatorData = []"
    "length getMockValidatorData = 2"
    by (simp_all add: getMockRestakingData_def getMockValidatorData_def
        well_formed_restaker_def well_formed_validator_def)
  have c: "fetcher_fetchRestakingData 0 (Transport_failure ''timeout'') (empty_store 100)
     = (Summary 2 0, fold restaker_upserted (getMockRestakingData 0) (empty_store 100))"
    by (simp add: fetcher_fetchRestakingData_def eigen_fetchRestakingData_def
        fetchRestakingData_request_def insert_all_dedup_restakers all)
  have d: "fetcher_fetchValidatorData (Transport_failure ''timeout'') (empty_store 100)
     = (Summary 2 0, fold validator_upserted getMockValidatorData (empty_store 100))"
    by (simp add: fetcher_fetchValidatorData_def eigen_fetchValidatorData_def
        fetchValidatorData_request_def insert_all_dedup_validators all)
  have e: "the (userAddress (hd (getMockRestakingData 0)))
     = ''0x742f6b5d9d4bb4e9d8a0e6a8b4e5d2a1f8c3e9d7''"
    "length (restakers (restaker_upserted (hd (getMockRestakingData 0)) (empty_store 100))) = 1"
    "length (restakers (fold restaker_upserted (getMockRestakingData 0) (empty_store 100))) = 2"
    by (simp_all add: getMockRestakingData_def restaker_upserted_def empty_store_def
        restaker_row_for_def)
  show ?thesis
    using upsert_idempotent
      [of "hd (getMockRestakingData 0)" "empty_store 100" 1
          "restaker_upserted (hd (getMockRestakingData 0)) (empty_store 100)" 200
          "hd getMockValidatorData"
          "validator_upserted (hd getMockValidatorData) (empty_store 100)"
          0 "Transport_failure ''timeout''" 2
          "fold restaker_upserted (getMockRestakingData 0) (empty_store 100)" 5000
          "Transport_failure ''timeout''" 2
          "fold validator_upserted getMockValidatorData (empty_store 100)"
          duplicate_key "[''0xa'', ''0xb'']"]
      a b c d e f
    by simp
qed

text \<open>
  C10: when a restaker (a validator) has been inserted and a record with the same
  address is upserted at a later time \<open>t\<close>, the one stored row of that address is a
  new row: its id is larger than that of the row it replaces, its columns are those
  of the new record, and the columns that the statement does not supply (the
  restaker's \<^verbatim>\<open>timestamp\<close> and \<^verbatim>\<open>createdAt\<close>, the validator's \<^verbatim>\<open>createdAt\<close>) hold
  \<open>t\<close>, not what the replaced row held.
\<close>

theorem upsert_replaces_row:
  "(insertRestaker r1 db = Inr (i, db1) \<and> userAddress r2 = userAddress r1
      \<and> amountRestaked r2 \<noteq> None \<longrightarrow>
      (\<exists>j db2. insertRestaker r2 (at_clock t db1) = Inr (j, db2) \<and> i < j
         \<and> restaker_rows_of (the (userAddress r1)) db1 = [restaker_row_for r1 i (clock db)]
         \<and> restaker_rows_of (the (userAddress r1)) db2 = [restaker_row_for r2 j t]
         \<and> rr_id (restaker_row_for r2 j t) = j
         \<and> rr_timestamp (restaker_row_for r2 j t) = t
         \<and> rr_createdAt (restaker_row_for r2 j t) = t))
   \<and> (insertValidator v1 db = Inr (i, dbv1) \<and> operatorAddress v2 = operatorAddress v1 \<longrightarrow>
      (\<exists>j db2. insertValidator v2 (at_clock t dbv1) = Inr (j, db2) \<and> i < j
         \<and> validator_rows_of (the (operatorAddress v1)) dbv1 = [validator_row_for v1 i (clock db)]
         \<and> validator_rows_of (the (operatorAddress v1)) db2 = [validator_row_for v2 j t]
         \<and> vr_id (validator_row_for v2 j t) = j
         \<and> vr_createdAt (validator_row_for v2 j t) = t))"
  using replace_restaker [of r1 db i db1 r2 t] replace_validator [of v1 db i dbv1 v2 t]
  by (auto simp: restaker_row_for_def validator_row_for_def)

theorem upsert_replaces_row_witness:
  "insertRestaker (hd (getMockRestakingData 0)) (empty_store 100)
     = Inr (1, restaker_upserted (hd (getMockRestakingData 0)) (empty_store 100))
   \<and> insertValidator (hd getMockValidatorData) (empty_store 100)
     = Inr (1, validator_upserted (hd getMockValidatorData) (empty_store 100))
   \<and> (\<exists>j db2. insertRestaker (hd (getMockRestakingData 0))
          (at_clock 200 (restaker_upserted (hd (getMockRestakingData 0)) (empty_store 100)))
          = Inr (j, db2) \<and> 1 < j
        \<and> map rr_createdAt (restaker_rows_of ''0x742f6b5d9d4bb4e9d8a0e6a8b4e5d2a1f8c3e9d7''
             (restaker_upserted (hd (getMockRestakingData 0)) (empty_store 100))) = [100]
        \<and> map rr_createdAt (restaker_rows_of ''0x742f6b5d9d4bb4e9d8a0e6a8b4e5d2a1f8c3e9d7'' db2)
             = [200]
        \<and> map rr_timestamp (restaker_rows_of ''0x742f6b5d9d4bb4e9d8a0e6a8b4e5d2a1f8c3e9d7'' db2)
             = [200]
        \<and> map rr_id (restaker_rows_of ''0x742f6b5d9d4bb4e9d8a0e6a8b4e5d2a1f8c3e9d7'' db2) = [j])"
proof -
  have wf: "well_formed_restaker (hd (getMockRestakingData 0))"
    "well_formed_validator (hd getMockValidatorData)"
    by (simp_all add: getMockRestakingData_def getMockValidatorData_def
        well_formed_restaker_def well_formed_validator_def)
  have a: "insertRestaker (hd (getMockRestakingData 0)) (empty_store 100)
     = Inr (1, restaker_upserted (hd (getMockRestakingData 0)) (empty_store 100))"
    by (simp add: insertRestaker_well_formed wf empty_store_def)
  have b: "insertValidator (hd getMockValidatorData) (empty_store 100)
     = Inr (1, validator_upserted (hd getMockValidatorData) (empty_store 100))"
    by (simp add: insertValidator_well_formed wf empty_store_def)
  have e: "the (userAddress (hd (getMockRestakingData 0)))
     = ''0x742f6b5d9d4bb4e9d8a0e6a8b4e5d2a1f8c3e9d7''"
    "amountRestaked (hd (getMockRestakingData 0)) \<noteq> None"
    "clock (empty_store 100) = 100"
    by (simp_all add: getMockRestakingData_def empty_store_def)
  show ?thesis
    using upsert_replaces_row
      [of "hd (getMockRestakingData 0)" "empty_store 100" 1
          "restaker_upserted (hd (getMockRestakingData 0)) (empty_store 100)"
          "hd (getMockRestakingData 0)" 200
          "hd getMockValidatorData"
          "validator_upserted (hd getMockValidatorData) (empty_store 100)"
          "hd getMockValidatorData"]
      a b e
    by (auto simp: restaker_row_for_def)
qed

section \<open>The fetch orchestrator\<close>

subsection \<open>The tasks\<close>

lemma fetchRestakingData_task_result:
  "has_counts_or_error (fst (fetcher_fetchRestakingData now resp db))"
  by (simp add: fetcher_fetchRestakingData_def has_counts_or_error_def
      split: sum.splits prod.splits)

lemma fetchValidatorData_task_result:
  "has_counts_or_error (fst (fetcher_fetchValidatorData resp db))"
  by (simp add: fetcher_fetchValidatorData_def has_counts_or_error_def
      split: sum.splits prod.splits)

lemma fetchRewardsData_task_result:
  "has_counts_or_error (fst (fetcher_fetchRewardsData now rnd resp db))"
  by (simp add: fetcher_fetchRewardsData_def has_counts_or_error_def
      split: sum.splits prod.splits)

lemma fetchSlashingData_task_result:
  "has_counts_or_error (fst (fetcher_fetchSlashingData db))"
  by (simp add: fetcher_fetchSlashingData_def has_counts_or_error_def
      split: sum.splits prod.splits)

lemma fetchLidoData_task_result:
  "has_data_or_error (fetcher_fetchLidoData lido)"
  by (simp add: fetcher_fetchLidoData_def has_data_or_error_def split: sum.splits)

lemma run_tasks_settle_all:
  "\<exists>r1 r2 r3 r4 db'.
     run_tasks env db =
       ([Fulfilled r1, Fulfilled r2, Fulfilled r3, Fulfilled r4,
         Fulfilled (fetcher_fetchLidoData (env_lido env))], db')
     \<and> has_counts_or_error r1 \<and> has_counts_or_error r2
     \<and> has_counts_or_error r3 \<and> has_counts_or_error r4"
proof -
  obtain r1 db1 where 1:
    "fetcher_fetchRestakingData (env_now env) (env_restaking env) db = (r1, db1)"
    by (cases "fetcher_fetchRestakingData (env_now env) (env_restaking env) db")
  obtain r2 db2 where 2: "fetcher_fetchValidatorData (env_validators env) db1 = (r2, db2)"
    by (cases "fetcher_fetchValidatorData (env_validators env) db1")
  obtain r3 db3 where 3:
    "fetcher_fetchRewardsData (env_now env) (env_random env) (env_rewards_restaking env) db2
       = (r3, db3)"
    by (cases "fetcher_fetchRewardsData (env_now env) (env_random env)
          (env_rewards_restaking env) db2")
  obtain r4 db4 where 4: "fetcher_fetchSlashingData db3 = (r4, db4)"
    by (cases "fetcher_fetchSlashingData db3")
  have "has_counts_or_error r1" "has_counts_or_error r2"
    "has_counts_or_error r3" "has_counts_or_error r4"
    using fetchRestakingData_task_result [of "env_now env" "env_restaking env" db]
      fetchValidatorData_task_result [of "env_validators env" db1]
      fetchRewardsData_task_result [of "env_now env" "env_random env"
        "env_rewards_restaking env" db2]
      fetchSlashingData_task_result [of db3]
    by (simp_all add: 1 2 3 4)
  then show ?thesis
    by (simp add: run_tasks_def 1 2 3 4)
qed

subsection \<open>Claims about the tasks\<close>

text \<open>
  C2, as stated: each of the five tasks returns a success flag with an inserted count
  and an error count, or a failure with its message.  The metrics task, when its
  fetch succeeds, returns \<^verbatim>\<open>{success: true, data}\<close>, without counts.
\<close>

theorem metrics_task_has_no_counts:
  "fetcher_fetchLidoData
     (Inr \<lparr> l_totalPooledEther = Some ''9500000000000000000000000'', l_apr = Some ''0.045'' \<rparr>)
   = Data \<lparr> l_totalPooledEther = Some ''9500000000000000000000000'', l_apr = Some ''0.045'' \<rparr>
   \<and> \<not> has_counts_or_error (fetcher_fetchLidoData
        (Inr \<lparr> l_totalPooledEther = Some ''9500000000000000000000000'',
               l_apr = Some ''0.045'' \<rparr>))"
  by (simp add: fetcher_fetchLidoData_def has_counts_or_error_def)

text \<open>
  C2, amended: the five tasks of a cycle are joined so that each of them settles
  fulfilled with its own result, whatever the others return.  The four persisting
  tasks (restaking, validators, rewards, slashing) return a success flag with an
  inserted count and an error count, or a failure with its message; the metrics task
  returns a success flag with the fetched data, or a failure with its message.  In a
  batch every record gets its write: the inserted count is the number of writes that
  succeed, the error count the number of writes that fail (in the loops over
  restakers and validators: that fail with an error other than a unique-constraint
  violation), and a failing write does not keep the later records from being
  written.
\<close>

theorem tasks_settle_all:
  "(\<exists>r1 r2 r3 r4 db'.
      run_tasks env db =
        ([Fulfilled r1, Fulfilled r2, Fulfilled r3, Fulfilled r4,
          Fulfilled (fetcher_fetchLidoData (env_lido env))], db')
      \<and> has_counts_or_error r1 \<and> has_counts_or_error r2
      \<and> has_counts_or_error r3 \<and> has_counts_or_error r4)
   \<and> has_data_or_error (fetcher_fetchLidoData (env_lido env))
   \<and> length (write_outcomes ins xs db) = length xs
   \<and> (\<exists>db'. insert_all_dedup ins xs (0, 0, db) =
        (length (filter succeeded (write_outcomes ins xs db)),
         length (filter counted_error (write_outcomes ins xs db)), db'))
   \<and> (\<exists>db'. insert_all ins xs (0, 0, db) =
        (length (filter succeeded (write_outcomes ins xs db)),
         length (filter failed (write_outcomes ins xs db)), db'))
   \<and> length (filter succeeded (write_outcomes ins xs db))
       + length (filter failed (write_outcomes ins xs db)) = length xs"
  using run_tasks_settle_all [of env db] fetchLidoData_task_result [of "env_lido env"]
    insert_all_dedup_outcomes [of ins xs 0 0 db] insert_all_outcomes [of ins xs 0 0 db]
    succeeded_or_failed [of "write_outcomes ins xs db"]
  by (simp add: length_write_outcomes)

theorem tasks_settle_all_witness:
  "run_tasks
     \<lparr> env_now = 0, env_random = (always ''1a''), env_init = None,
       env_restaking = Response \<lparr> errors = None, payload = Some [] \<rparr>,
       env_validators = Transport_failure ''timeout'',
       env_rewards_restaking = Response \<lparr> errors = None, payload = Some [] \<rparr>,
       env_lido = Inl (Error ''boom'') \<rparr>
     (empty_store 0)
   = ([Fulfilled (Summary 0 0), Fulfilled (Summary 2 0), Fulfilled (Summary 0 0),
       Fulfilled (Summary 0 0), Fulfilled (Failed ''boom'')],
      fold validator_upserted getMockValidatorData (empty_store 0))
   \<and> write_outcomes insertValidator
        [\<lparr> operatorAddress = None, operatorId = None, totalDelegatedStake = None,
            validatorStatus = None, metadataURI = None \<rparr>,
         hd getMockValidatorData]
        (empty_store 0)
      = [Some (not_null_failed ''validators.operatorAddress''), None]
   \<and> (\<exists>db'. insert_all_dedup insertValidator
        [\<lparr> operatorAddress = None, operatorId = None, totalDelegatedStake = None,
            validatorStatus = None, metadataURI = None \<rparr>,
         hd getMockValidatorData]
        (0, 0, empty_store 0) = (1, 1, db'))"
proof -
  have all:
    "filter well_formed_validator getMockValidatorData = getMockValidatorData"
    "filter (\<lambda>r. \<not> well_formed_validator r) getMockValidatorData = []"
    "length getMockValidatorData = 2"
    "well_formed_validator (hd getMockValidatorData)"
    "\<not> well_formed_validator \<lparr> operatorAddress = None, operatorId = None,
        totalDelegatedStake = None, validatorStatus = None, metadataURI = None \<rparr>"
    by (simp_all add: getMockValidatorData_def well_formed_validator_def)
  have tasks: "run_tasks
     \<lparr> env_now = 0, env_random = (always ''1a''), env_init = None,
       env_restaking = Response \<lparr> errors = None, payload = Some [] \<rparr>,
       env_validators = Transport_failure ''timeout'',
       env_rewards_restaking = Response \<lparr> errors = None, payload = Some [] \<rparr>,
       env_lido = Inl (Error ''boom'') \<rparr>
     (empty_store 0)
   = ([Fulfilled (Summary 0 0), Fulfilled (Summary 2 0), Fulfilled (Summary 0 0),
       Fulfilled (Summary 0 0), Fulfilled (Failed ''boom'')],
      fold validator_upserted getMockValidatorData (empty_store 0))"
    by (simp add: run_tasks_def fetcher_fetchRestakingData_def eigen_fetchRestakingData_def
        fetchRestakingData_request_def fetcher_fetchValidatorData_def
        eigen_fetchValidatorData_def fetchValidatorData_request_def
        insert_all_dedup_validators all fetcher_fetchRewardsData_def
        eigen_fetchRewardsData_def simulateRewards_def fetcher_fetchSlashingData_def
        fetchSlashingEvents_def fetcher_fetchLidoData_def message_def)
  have outs: "write_outcomes insertValidator
        [\<lparr> operatorAddress = None, operatorId = None, totalDelegatedStake = None,
            validatorStatus = None, metadataURI = None \<rparr>,
         hd getMockValidatorData]
        (empty_store 0)
      = [Some (not_null_failed ''validators.operatorAddress''), None]"
    by (simp add: insertValidator_def getMockValidatorData_def)
  have "\<not> is_unique_violation (not_null_failed ''validators.operatorAddress'')"
    by (simp add: not_null_failed_def is_unique_violation_def message_def sublist_Cons_right)
  then have counts:
    "length (filter succeeded [Some (not_null_failed ''validators.operatorAddress''), None]) = 1"
    "length (filter counted_error
       [Some (not_null_failed ''validators.operatorAddress''), None]) = 1"
    by (simp_all add: succeeded_def counted_error_def)
  show ?thesis
    using tasks_settle_all
      [of "\<lparr> env_now = 0, env_random = (always ''1a''), env_init = None,
             env_restaking = Response \<lparr> errors = None, payload = Some [] \<rparr>,
             env_validators = Transport_failure ''timeout'',
             env_rewards_restaking = Response \<lparr> errors = None, payload = Some [] \<rparr>,
             env_lido = Inl (Error ''boom'') \<rparr>"
          "empty_store 0" insertValidator
          "[\<lparr> operatorAddress = None, operatorId = None, totalDelegatedStake = None,
              validatorStatus = None, metadataURI = None \<rparr>,
            hd getMockValidatorData]"]
      tasks outs counts
    by simp
qed

subsection \<open>The in-progress flag\<close>

lemma gate_invariant_initial: "gate_invariant (initial_system db0)"
  by (simp add: gate_invariant_def initial_system_def)

lemma gate_invariant_step: "gate_invariant s \<Longrightarrow> gate_invariant (step s e)"
  by (cases e) (auto simp: gate_invariant_def enter_cycle_def end_cycle_def)

lemma gate_invariant_run: "gate_invariant s \<Longrightarrow> gate_invariant (run s events)"
  unfolding run_def
  by (induction events arbitrary: s) (simp_all add: gate_invariant_step)

lemma fetchAllData_clears_flag:
  "\<not> isRunning w \<Longrightarrow>
   \<not> isRunning (snd (fetchAllData env w)) \<and> fst (fetchAllData env w) \<noteq> Skipped"
  by (simp add: fetchAllData_def enter_cycle_def end_cycle_def
      split: option.splits prod.splits)

lemma fetchAllData_skips: "isRunning w \<Longrightarrow> fetchAllData env w = (Skipped, w)"
  by (simp add: fetchAllData_def enter_cycle_def)

text \<open>
  C1: after any sequence of calls, writes and completions, at most one cycle is in
  flight, and one is in flight exactly when the flag is set.  A call made while the
  flag is set changes nothing: no write, no second cycle; run on its own,
  \<open>fetchAllData\<close> returns at once and leaves flag and store as they are.  A call
  made while the flag is clear sets the flag and starts a cycle.  The completion of a
  cycle clears the flag, whether the tasks settled or initialisation threw, so that
  the next call starts a cycle again.
\<close>

theorem in_progress_flag_excludes:
  "in_flight (run (initial_system db0) events) \<le> 1
   \<and> (isRunning (the_world (run (initial_system db0) events))
        \<longleftrightarrow> in_flight (run (initial_system db0) events) = 1)
   \<and> (isRunning (the_world (run (initial_system db0) events)) \<longrightarrow>
        step (run (initial_system db0) events) Invoke = run (initial_system db0) events
        \<and> fetchAllData env (the_world (run (initial_system db0) events))
            = (Skipped, the_world (run (initial_system db0) events)))
   \<and> (\<not> isRunning (the_world (run (initial_system db0) events)) \<longrightarrow>
        isRunning (the_world (step (run (initial_system db0) events) Invoke))
        \<and> in_flight (step (run (initial_system db0) events) Invoke) = 1)
   \<and> \<not> isRunning (the_world (step (run (initial_system db0) events) Settle))
   \<and> in_flight (step (step (run (initial_system db0) events) Settle) Invoke) = 1
   \<and> (\<not> isRunning w \<longrightarrow>
        \<not> isRunning (snd (fetchAllData env w)) \<and> fst (fetchAllData env w) \<noteq> Skipped
        \<and> fst (fetchAllData env (snd (fetchAllData env w))) \<noteq> Skipped)"
proof -
  define s where "s = run (initial_system db0) events"
  have inv: "gate_invariant s"
    unfolding s_def by (rule gate_invariant_run) (rule gate_invariant_initial)
  then have settled: "gate_invariant (step s Settle)"
    by (rule gate_invariant_step)
  have 1: "in_flight s \<le> 1 \<and> (isRunning (the_world s) \<longleftrightarrow> in_flight s = 1)"
    using inv by (simp add: gate_invariant_def)
  have 2: "isRunning (the_world s) \<longrightarrow>
      step s Invoke = s \<and> fetchAllData env (the_world s) = (Skipped, the_world s)"
    by (simp add: enter_cycle_def fetchAllData_skips)
  have 3: "\<not> isRunning (the_world s) \<longrightarrow>
      isRunning (the_world (step s Invoke)) \<and> in_flight (step s Invoke) = 1"
    using inv by (auto simp: gate_invariant_def enter_cycle_def)
  have 4: "\<not> isRunning (the_world (step s Settle))"
    using inv by (auto simp: gate_invariant_def end_cycle_def)
  have 5: "in_flight (step (step s Settle) Invoke) = 1"
    using settled 4 by (auto simp: gate_invariant_def enter_cycle_def)
  have 6: "\<not> isRunning w \<longrightarrow>
      \<not> isRunning (snd (fetchAllData env w)) \<and> fst (fetchAllData env w) \<noteq> Skipped
      \<and> fst (fetchAllData env (snd (fetchAllData env w))) \<noteq> Skipped"
    using fetchAllData_clears_flag [of w env]
      fetchAllData_clears_flag [of "snd (fetchAllData env w)" env]
    by blast
  from 1 2 3 4 5 6 show ?thesis
    unfolding s_def by blast
qed

theorem in_progress_flag_excludes_witness:
  "isRunning (the_world (run (initial_system (empty_store 0))
      [Invoke, Store_write (at_clock 5), Invoke]))
   \<and> in_flight (run (initial_system (empty_store 0))
      [Invoke, Store_write (at_clock 5), Invoke]) = 1
   \<and> started (run (initial_system (empty_store 0))
      [Invoke, Store_write (at_clock 5), Invoke]) = 1
   \<and> step (run (initial_system (empty_store 0)) [Invoke, Store_write (at_clock 5), Invoke]) Invoke
      = run (initial_system (empty_store 0)) [Invoke, Store_write (at_clock 5), Invoke]
   \<and> \<not> isRunning (the_world (run (initial_system (empty_store 0)) [Invoke, Settle]))
   \<and> in_flight (step (run (initial_system (empty_store 0)) [Invoke, Settle]) Invoke) = 1
   \<and> \<not> isRunning (snd (fetchAllData
        \<lparr> env_now = 0, env_random = (always ''1a''), env_init = Some (Error ''SQLITE_CANTOPEN''),
          env_restaking = Transport_failure ''timeout'',
          env_validators = Transport_failure ''timeout'',
          env_rewards_restaking = Transport_failure ''timeout'',
          env_lido = Inl (Error ''boom'') \<rparr>
        \<lparr> isRunning = False, world_db = empty_store 0 \<rparr>))"
  using in_progress_flag_excludes
    [of "empty_store 0" "[Invoke, Store_write (at_clock 5), Invoke]"
        "\<lparr> env_now = 0, env_random = (always ''1a''), env_init = Some (Error ''SQLITE_CANTOPEN''),
           env_restaking = Transport_failure ''timeout'',
           env_validators = Transport_failure ''timeout'',
           env_rewards_restaking = Transport_failure ''timeout'',
           env_lido = Inl (Error ''boom'') \<rparr>"
        "\<lparr> isRunning = False, world_db = empty_store 0 \<rparr>"]
    in_progress_flag_excludes
    [of "empty_store 0" "[Invoke, Settle]"
        "\<lparr> env_now = 0, env_random = (always ''1a''), env_init = Some (Error ''SQLITE_CANTOPEN''),
           env_restaking = Transport_failure ''timeout'',
           env_validators = Transport_failure ''timeout'',
           env_rewards_restaking = Transport_failure ''timeout'',
           env_lido = Inl (Error ''boom'') \<rparr>"
        "\<lparr> isRunning = False, world_db = empty_store 0 \<rparr>"]
  by (simp add: run_def initial_system_def enter_cycle_def end_cycle_def)

section \<open>The scheduler\<close>

lemma task_stop_nth [simp]:
  "length (task_stop h ts) = length ts"
  "i < length ts \<Longrightarrow>
     started_task (task_stop h ts ! i) = (started_task (ts ! i) \<and> i \<noteq> h)"
  "i < length ts \<Longrightarrow> callback (task_stop h ts ! i) = callback (ts ! i)"
  by (auto simp: task_stop_def nth_list_update)

lemma task_start_nth [simp]:
  "length (task_start h ts) = length ts"
  "i < length ts \<Longrightarrow>
     started_task (task_start h ts ! i) = (started_task (ts ! i) \<or> i = h)"
  "i < length ts \<Longrightarrow> callback (task_start h ts ! i) = callback (ts ! i)"
  by (auto simp: task_start_def nth_list_update)

lemma filter_upt_eq: "m < n \<Longrightarrow> filter (\<lambda>i. i = m) [0..<n] = [m]"
proof (induction n)
  case 0
  then show ?case by simp
next
  case (Suc n)
  show ?case
  proof (cases "m = n")
    case True
    have "filter (\<lambda>i. i = n) [0..<n] = []"
      by (simp add: filter_empty_conv)
    with True show ?thesis by simp
  next
    case False
    with Suc show ?thesis by simp
  qed
qed

lemma scheduler_invariant_new: "scheduler_invariant (new_scheduler env)"
  by (simp add: scheduler_invariant_def new_scheduler_def)

lemma scheduler_invariant_start:
  assumes "scheduler_invariant s"
  shows "scheduler_invariant (snd (start validate s))"
proof (cases "scheduler_isRunning s")
  case True
  with assms show ?thesis by (simp add: start_def)
next
  case False
  with assms have empty: "tasks s = []"
    and off: "\<forall>i < length (cron_tasks s). \<not> started_task (cron_tasks s ! i)"
    by (simp_all add: scheduler_invariant_def)
  show ?thesis
  proof (cases "validate (refreshInterval s)")
    case invalid: False
    with False assms show ?thesis by (simp add: start_def)
  next
    case valid: True
    show ?thesis
    proof (cases "validate ''*/5 * * * *''")
      case False
      with \<open>\<not> scheduler_isRunning s\<close> valid empty off show ?thesis
        by (auto simp: start_def Let_def scheduler_invariant_def nth_append)
    next
      case True
      with \<open>\<not> scheduler_isRunning s\<close> valid empty off show ?thesis
        by (auto simp: start_def Let_def scheduler_invariant_def nth_append less_Suc_eq)
    qed
  qed
qed

lemma scheduler_invariant_stop:
  assumes "scheduler_invariant s"
  shows "scheduler_invariant (stop s)"
proof (cases "scheduler_isRunning s")
  case False
  with assms show ?thesis by (simp add: stop_def)
next
  case True
  with assms obtain m h where
    "tasks s = [(''main'', m), (''healthCheck'', h)]"
    "\<forall>i < length (cron_tasks s). started_task (cron_tasks s ! i) \<longleftrightarrow> i = m \<or> i = h"
    by (auto simp: scheduler_invariant_def)
  with True show ?thesis
    by (auto simp: stop_def scheduler_invariant_def)
qed

lemma scheduler_invariant_update:
  assumes "scheduler_invariant s"
  shows "scheduler_invariant (snd (updateRefreshInterval validate x s))"
proof (cases "validate x \<and> scheduler_isRunning s")
  case False
  with assms show ?thesis
    by (auto simp: updateRefreshInterval_def scheduler_invariant_def)
next
  case True
  with assms obtain m h where
    t: "tasks s = [(''main'', m), (''healthCheck'', h)]" and
    mh: "m \<noteq> h" "m < length (cron_tasks s)" "h < length (cron_tasks s)" and
    cb: "callback (cron_tasks s ! h) = Health_check" and
    on: "\<forall>i < length (cron_tasks s). started_task (cron_tasks s ! i) \<longleftrightarrow> i = m \<or> i = h"
    by (auto simp: scheduler_invariant_def)
  from True t mh cb on show ?thesis
    by (auto simp: updateRefreshInterval_def Let_def scheduler_invariant_def nth_append
        less_Suc_eq)
qed

lemma scheduler_invariant_lifecycle: "scheduler_invariant (lifecycle validate env ops)"
proof -
  have "scheduler_invariant s \<Longrightarrow> scheduler_invariant (foldl (apply_operation validate) s ops)"
    for s
  proof (induction ops arbitrary: s)
    case Nil
    then show ?case by simp
  next
    case (Cons operation ops)
    have "scheduler_invariant (apply_operation validate s operation)"
      using Cons.prems
      by (cases operation)
         (simp_all add: scheduler_invariant_start scheduler_invariant_stop
            scheduler_invariant_update)
    then show ?case by (simp add: Cons.IH)
  qed
  then show ?thesis
    unfolding lifecycle_def by (simp add: scheduler_invariant_new)
qed

lemma active_timers_running:
  assumes "scheduler_invariant s" "scheduler_isRunning s"
  shows "length (active_timers Main_refresh s) = 1 \<and> length (active_timers Health_check s) = 1"
proof -
  from assms obtain m h where
    mh: "m \<noteq> h" "m < length (cron_tasks s)" "h < length (cron_tasks s)" and
    cb: "callback (cron_tasks s ! m) = Main_refresh" "callback (cron_tasks s ! h) = Health_check" and
    on: "\<forall>i < length (cron_tasks s). started_task (cron_tasks s ! i) \<longleftrightarrow> i = m \<or> i = h"
    by (auto simp: scheduler_invariant_def)
  have "active_timers Main_refresh s = filter (\<lambda>i. i = m) [0..<length (cron_tasks s)]"
    unfolding active_timers_def using mh cb on by (intro filter_cong refl) auto
  moreover
  have "active_timers Health_check s = filter (\<lambda>i. i = h) [0..<length (cron_tasks s)]"
    unfolding active_timers_def using mh cb on by (intro filter_cong refl) auto
  ultimately show ?thesis
    using mh by (simp add: filter_upt_eq)
qed

lemma active_timers_stopped:
  assumes "scheduler_invariant s" "\<not> scheduler_isRunning s"
  shows "active_timers c s = []"
  using assms by (auto simp: scheduler_invariant_def active_timers_def filter_empty_conv)

text \<open>
  C9: at any point of a lifecycle, \<^verbatim>\<open>start()\<close> on a running scheduler returns
  without changing anything, and a running scheduler has exactly one started
  main-refresh timer and one started health-check timer; \<^verbatim>\<open>stop()\<close> on a running
  scheduler leaves it not running with no started timer of either kind;
  \<^verbatim>\<open>triggerRefresh()\<close> on a scheduler that is not running throws
  \<^verbatim>\<open>Error('Scheduler is not running')\<close> and starts no cycle.
\<close>

theorem scheduler_timers:
  "(scheduler_isRunning (lifecycle validate env ops) \<longrightarrow>
      start validate (lifecycle validate env ops) = (None, lifecycle validate env ops)
      \<and> length (active_timers Main_refresh (lifecycle validate env ops)) = 1
      \<and> length (active_timers Health_check (lifecycle validate env ops)) = 1
      \<and> \<not> scheduler_isRunning (stop (lifecycle validate env ops))
      \<and> active_timers Main_refresh (stop (lifecycle validate env ops)) = []
      \<and> active_timers Health_check (stop (lifecycle validate env ops)) = [])
   \<and> (\<not> scheduler_isRunning (lifecycle validate env ops) \<longrightarrow>
      active_timers Main_refresh (lifecycle validate env ops) = []
      \<and> active_timers Health_check (lifecycle validate env ops) = []
      \<and> triggerRefresh (lifecycle validate env ops) cenv w
          = (Inl (Error ''Scheduler is not running''), w))"
proof -
  define s where "s = lifecycle validate env ops"
  have inv: "scheduler_invariant s"
    unfolding s_def by (rule scheduler_invariant_lifecycle)
  have stopped: "scheduler_isRunning s \<Longrightarrow> \<not> scheduler_isRunning (stop s)"
    by (simp add: stop_def)
  have "scheduler_isRunning s \<longrightarrow>
      start validate s = (None, s)
      \<and> length (active_timers Main_refresh s) = 1
      \<and> length (active_timers Health_check s) = 1
      \<and> \<not> scheduler_isRunning (stop s)
      \<and> active_timers Main_refresh (stop s) = []
      \<and> active_timers Health_check (stop s) = []"
    using active_timers_running [OF inv] stopped
      active_timers_stopped [OF scheduler_invariant_stop [OF inv]]
    by (auto simp: start_def)
  moreover have "\<not> scheduler_isRunning s \<longrightarrow>
      active_timers Main_refresh s = [] \<and> active_timers Health_check s = []
      \<and> triggerRefresh s cenv w = (Inl (Error ''Scheduler is not running''), w)"
    using active_timers_stopped [OF inv] by (simp add: triggerRefresh_def)
  ultimately show ?thesis
    unfolding s_def by blast
qed

theorem scheduler_timers_witness:
  "scheduler_isRunning (lifecycle (\<lambda>x. True) None [Start, Start, Update_interval ''*/10 * * * *''])
   \<and> map fst (tasks (lifecycle (\<lambda>x. True) None [Start, Start, Update_interval ''*/10 * * * *'']))
       = [''main'', ''healthCheck'']
   \<and> active_timers Main_refresh
        (lifecycle (\<lambda>x. True) None [Start, Start, Update_interval ''*/10 * * * *'']) = [2]
   \<and> active_timers Health_check
        (lifecycle (\<lambda>x. True) None [Start, Start, Update_interval ''*/10 * * * *'']) = [1]
   \<and> length (active_timers Main_refresh
        (lifecycle (\<lambda>x. True) None [Start, Start, Update_interval ''*/10 * * * *''])) = 1
   \<and> active_timers Main_refresh
        (stop (lifecycle (\<lambda>x. True) None [Start, Start, Update_interval ''*/10 * * * *''])) = []
   \<and> \<not> scheduler_isRunning (lifecycle (\<lambda>x. True) None [Start, Stop])
   \<and> triggerRefresh (lifecycle (\<lambda>x. True) None [Start, Stop])
        \<lparr> env_now = 0, env_random = (always ''1a''), env_init = None,
          env_restaking = Transport_failure ''timeout'',
          env_validators = Transport_failure ''timeout'',
          env_rewards_restaking = Transport_failure ''timeout'',
          env_lido = Inl (Error ''boom'') \<rparr>
        \<lparr> isRunning = False, world_db = empty_store 0 \<rparr>
      = (Inl (Error ''Scheduler is not running''),
         \<lparr> isRunning = False, world_db = empty_store 0 \<rparr>)"
proof -
  have run: "lifecycle (\<lambda>x. True) None [Start, Start, Update_interval ''*/10 * * * *'']
    = \<lparr> tasks = [(''main'', 2), (''healthCheck'', 1)], scheduler_isRunning = True,
        cron_tasks =
          [\<lparr> expression = ''*/30 * * * *'', callback = Main_refresh, started_task = False \<rparr>,
           \<lparr> expression = ''*/5 * * * *'', callback = Health_check, started_task = True \<rparr>,
           \<lparr> expression = ''*/10 * * * *'', callback = Main_refresh, started_task = True \<rparr>],
        refresh_env = Some ''*/10 * * * *'', initial_fetches = 1 \<rparr>"
    by (simp add: lifecycle_def new_scheduler_def start_def updateRefreshInterval_def Let_def
        refreshInterval_def task_start_def task_stop_def)
  have off: "\<not> scheduler_isRunning (lifecycle (\<lambda>x. True) None [Start, Stop])"
    by (simp add: lifecycle_def new_scheduler_def start_def stop_def Let_def)
  have upt: "[0..<3] = [0, 1, 2]"
    by (simp add: upt_conv_Cons)
  have timers:
    "active_timers Main_refresh
        (lifecycle (\<lambda>x. True) None [Start, Start, Update_interval ''*/10 * * * *'']) = [2]"
    "active_timers Health_check
        (lifecycle (\<lambda>x. True) None [Start, Start, Update_interval ''*/10 * * * *'']) = [1]"
    by (simp_all add: run active_timers_def upt)
  show ?thesis
    using scheduler_timers
      [of "\<lambda>x. True" None "[Start, Start, Update_interval ''*/10 * * * *'']"]
      scheduler_timers
      [of "\<lambda>x. True" None "[Start, Stop]"
          "\<lparr> env_now = 0, env_random = (always ''1a''), env_init = None,
             env_restaking = Transport_failure ''timeout'',
             env_validators = Transport_failure ''timeout'',
             env_rewards_restaking = Transport_failure ''timeout'',
             env_lido = Inl (Error ''boom'') \<rparr>"
          "\<lparr> isRunning = False, world_db = empty_store 0 \<rparr>"]
      off timers
    by (simp add: run)
qed

end
